theory Spec2Isabelle
  imports Complex_Main "HOL-Library.AList"
begin

section \<open>Values, strings and numbers of the grade overlay program\<close>

text \<open>
  The program under study (\<^verbatim>\<open>todiem.py\<close>, class \<^verbatim>\<open>GradeProcessor\<close>) reads scores from a
  spreadsheet and draws them onto the pages of PDF score sheets.

  A Python string is modelled by the \<^typ>\<open>string\<close> of the bytes of its UTF-8 encoding, so
  the Vietnamese literals of the source are written as their UTF-8 bytes. Substring and
  suffix tests on the bytes agree with those on the characters, since no encoded character
  starts inside another one.

  A spreadsheet cell, as pandas hands it to Python, is one of the values below. A finite
  float is modelled by the real number it denotes. The arithmetic that decides the
  branches of the program (\<^verbatim>\<open>score - int(score)\<close> for \<^verbatim>\<open>0 <= score <= 10\<close>, the
  comparison with \<^verbatim>\<open>0.5\<close>) is exact on binary floats, so the branches taken are those of
  the program; drawing coordinates are exact reals, the rounding of float addition and
  multiplication is not modelled.
\<close>

datatype pyval =
    PNone
  | PNaN
  | PInt int
  | PFloat real
  | PBool bool
  | PStr string

text \<open>\<^verbatim>\<open>pd.isna(score)\<close> on a scalar.\<close>

fun isna :: "pyval \<Rightarrow> bool" where
  "isna PNone = True"
| "isna PNaN = True"
| "isna _ = False"

text \<open>
  The number a value denotes when \<^verbatim>\<open>isinstance(score, (int, float))\<close> holds; \<^verbatim>\<open>bool\<close> is a
  subclass of \<^verbatim>\<open>int\<close> in Python. \<open>None\<close> stands for a value that is not a number.
\<close>

fun num_of :: "pyval \<Rightarrow> real option" where
  "num_of (PInt i) = Some (of_int i)"
| "num_of (PFloat r) = Some r"
| "num_of (PBool b) = Some (if b then 1 else 0)"
| "num_of PNaN = None"
| "num_of PNone = None"
| "num_of (PStr s) = None"

text \<open>\<^verbatim>\<open>int(x)\<close> truncates towards zero.\<close>

definition py_int :: "real \<Rightarrow> int" where
  "py_int x = (if 0 \<le> x then \<lfloor>x\<rfloor> else \<lceil>x\<rceil>)"

text \<open>
  \<^verbatim>\<open>round(x, 1)\<close>: the multiple of one tenth nearest to the value of \<open>x\<close>, an exact tie
  going to the even tenth.
\<close>

definition round_half_even :: "real \<Rightarrow> int" where
  "round_half_even x =
     (let f = \<lfloor>x\<rfloor>; d = x - of_int f
      in if d < 1 / 2 then f
         else if 1 / 2 < d then f + 1
         else if even f then f else f + 1)"

definition py_round1 :: "real \<Rightarrow> real" where
  "py_round1 x = of_int (round_half_even (x * 10)) / 10"

subsection \<open>Number words\<close>

definition word_vang :: string where
  "word_vang = ''V'' @ [CHR 0xE1, CHR 0xBA, CHR 0xAF] @ ''ng''"

definition word_khong_hop_le :: string where
  "word_khong_hop_le =
     ''Kh'' @ [CHR 0xC3, CHR 0xB4] @ ''ng h'' @ [CHR 0xE1, CHR 0xBB, CHR 0xA3] @ ''p l''
       @ [CHR 0xE1, CHR 0xBB, CHR 0x87]"

definition word_muoi :: string where
  "word_muoi = ''M'' @ [CHR 0xC6, CHR 0xB0, CHR 0xE1, CHR 0xBB, CHR 0x9D] @ ''i''"

definition suffix_ruoi :: string where
  "suffix_ruoi = '' r'' @ [CHR 0xC6, CHR 0xB0, CHR 0xE1, CHR 0xBB, CHR 0xA1] @ ''i''"

definition number_words :: "string list" where
  "number_words =
     [''Kh'' @ [CHR 0xC3, CHR 0xB4] @ ''ng'',
      ''M'' @ [CHR 0xE1, CHR 0xBB, CHR 0x99] @ ''t'',
      ''Hai'',
      ''Ba'',
      ''B'' @ [CHR 0xE1, CHR 0xBB, CHR 0x91] @ ''n'',
      ''N'' @ [CHR 0xC4, CHR 0x83] @ ''m'',
      ''S'' @ [CHR 0xC3, CHR 0xA1] @ ''u'',
      ''B'' @ [CHR 0xE1, CHR 0xBA, CHR 0xA3] @ ''y'',
      ''T'' @ [CHR 0xC3, CHR 0xA1] @ ''m'',
      ''Ch'' @ [CHR 0xC3, CHR 0xAD] @ ''n'']"

section \<open>Strings\<close>

text \<open>
  One character is one to four bytes, and its first byte tells how many. \<open>first_char s\<close>
  is the first character of a string that is not empty, \<open>after_first_char s\<close> what follows
  it.
\<close>

definition is_ascii :: "char \<Rightarrow> bool" where
  "is_ascii c = ((of_char c :: nat) < 128)"

definition char_len :: "char \<Rightarrow> nat" where
  "char_len c =
     (if (of_char c :: nat) < 0xC0 then 1
      else if (of_char c :: nat) < 0xE0 then 2
      else if (of_char c :: nat) < 0xF0 then 3
      else 4)"

definition first_char :: "string \<Rightarrow> string" where
  "first_char s = take (char_len (hd s)) s"

definition after_first_char :: "string \<Rightarrow> string" where
  "after_first_char s = drop (char_len (hd s)) s"

text \<open>
  The classes \<^verbatim>\<open>\d\<close> and \<^verbatim>\<open>\w\<close> of the regular expressions and \<^verbatim>\<open>str.lower\<close> follow
  the Unicode character data of the Python that runs the program. On ASCII they are
  written out below. Beyond ASCII the model takes them from a table: which characters are
  decimal digits, which are alphanumeric, and the lower-case form of a string that has
  characters beyond ASCII (the case mapping of Unicode depends on the neighbours of a
  character in one case, so the table maps whole strings).
\<close>

record unicode_db =
  uc_decimal :: "string \<Rightarrow> bool"
  uc_alnum :: "string \<Rightarrow> bool"
  uc_lower :: "string \<Rightarrow> string"

definition is_digit :: "char \<Rightarrow> bool" where
  "is_digit c = (c \<in> set ''0123456789'')"

definition is_word_char :: "char \<Rightarrow> bool" where
  "is_word_char c =
     (c \<in> set ''abcdefghijklmnopqrstuvwxyzABCDEFGHIJKLMNOPQRSTUVWXYZ0123456789_'')"

text \<open>\<^verbatim>\<open>\d\<close> and \<^verbatim>\<open>\w\<close> on one character, given by its bytes.\<close>

definition is_decimal :: "unicode_db \<Rightarrow> string \<Rightarrow> bool" where
  "is_decimal db c = (if is_ascii (hd c) then is_digit (hd c) else uc_decimal db c)"

definition is_word :: "unicode_db \<Rightarrow> string \<Rightarrow> bool" where
  "is_word db c = (if is_ascii (hd c) then is_word_char (hd c) else uc_alnum db c)"

text \<open>
  The characters \<^verbatim>\<open>str.strip()\<close> removes, those for which \<^verbatim>\<open>str.isspace\<close> holds: the
  codes 9 to 13 and 28 to 32, and U+0085, U+00A0, U+1680, U+2000 to U+200A, U+2028,
  U+2029, U+202F, U+205F and U+3000.
\<close>

definition whitespace_chars :: "string list" where
  "whitespace_chars =
     [[CHR 0x09], [CHR 0x0A], [CHR 0x0B], [CHR 0x0C], [CHR 0x0D],
      [CHR 0x1C], [CHR 0x1D], [CHR 0x1E], [CHR 0x1F], [CHR 0x20],
      [CHR 0xC2, CHR 0x85], [CHR 0xC2, CHR 0xA0], [CHR 0xE1, CHR 0x9A, CHR 0x80],
      [CHR 0xE2, CHR 0x80, CHR 0x80], [CHR 0xE2, CHR 0x80, CHR 0x81],
      [CHR 0xE2, CHR 0x80, CHR 0x82], [CHR 0xE2, CHR 0x80, CHR 0x83],
      [CHR 0xE2, CHR 0x80, CHR 0x84], [CHR 0xE2, CHR 0x80, CHR 0x85],
      [CHR 0xE2, CHR 0x80, CHR 0x86], [CHR 0xE2, CHR 0x80, CHR 0x87],
      [CHR 0xE2, CHR 0x80, CHR 0x88], [CHR 0xE2, CHR 0x80, CHR 0x89],
      [CHR 0xE2, CHR 0x80, CHR 0x8A], [CHR 0xE2, CHR 0x80, CHR 0xA8],
      [CHR 0xE2, CHR 0x80, CHR 0xA9], [CHR 0xE2, CHR 0x80, CHR 0xAF],
      [CHR 0xE2, CHR 0x81, CHR 0x9F], [CHR 0xE3, CHR 0x80, CHR 0x80]]"

text \<open>
  \<open>lstrip_chars cs s\<close> removes from the front of \<open>s\<close> every character of \<open>cs\<close>, until the
  string starts with another character or is empty. \<^verbatim>\<open>str.strip()\<close> does so at both ends;
  at the end of the string the bytes of a character are met in reverse.
\<close>

function lstrip_chars :: "string list \<Rightarrow> string \<Rightarrow> string" where
  "lstrip_chars cs s =
     (case find (\<lambda>c. c \<noteq> [] \<and> take (length c) s = c) cs of
        None \<Rightarrow> s
      | Some c \<Rightarrow> lstrip_chars cs (drop (length c) s))"
  by pat_completeness auto
termination
proof (relation "measure (\<lambda>(cs, s). length s)")
  show "wf (measure (\<lambda>(cs, s). length s))" by simp
next
  fix cs :: "string list" and s c :: string
  assume "find (\<lambda>c. c \<noteq> [] \<and> take (length c) s = c) cs = Some c"
  then have c: "c \<noteq> []" and t: "take (length c) s = c"
    by (auto simp: find_Some_iff)
  have "length (take (length c) s) = length c" using t by simp
  then have "length c \<le> length s" by simp
  moreover have "0 < length c" using c by simp
  ultimately have "length s - length c < length s" by arith
  then show "((cs, drop (length c) s), (cs, s)) \<in> measure (\<lambda>(cs, s). length s)"
    by simp
qed

declare lstrip_chars.simps [simp del]

definition py_strip :: "string \<Rightarrow> string" where
  "py_strip s =
     rev (lstrip_chars (map rev whitespace_chars) (rev (lstrip_chars whitespace_chars s)))"

text \<open>\<^verbatim>\<open>s.endswith(t)\<close> and \<^verbatim>\<open>t in s\<close>.\<close>

definition endswith :: "string \<Rightarrow> string \<Rightarrow> bool" where
  "endswith s t = (length t \<le> length s \<and> drop (length s - length t) s = t)"

fun contains :: "string \<Rightarrow> string \<Rightarrow> bool" where
  "contains [] t = (t = [])"
| "contains (c # s) t = (take (length t) (c # s) = t \<or> contains s t)"

text \<open>\<^verbatim>\<open>str(n)\<close> for a natural number \<open>n\<close>.\<close>

fun str_nat :: "nat \<Rightarrow> string" where
  "str_nat n =
     (if n < 10 then [''0123456789'' ! n]
      else str_nat (n div 10) @ [''0123456789'' ! (n mod 10)])"

declare str_nat.simps [simp del]

text \<open>\<^verbatim>\<open>', '.join(xs)\<close>.\<close>

fun join_comma :: "string list \<Rightarrow> string" where
  "join_comma [] = []"
| "join_comma [x] = x"
| "join_comma (x # y # ys) = x @ '', '' @ join_comma (y # ys)"

text \<open>
  \<^verbatim>\<open>s.lower()\<close>: on a string of ASCII characters the capitals \<open>A\<close> to \<open>Z\<close> become small
  letters; a string with characters beyond ASCII is looked up in the Unicode data.
\<close>

definition lower_char :: "char \<Rightarrow> char" where
  "lower_char c =
     (case map_of (zip ''ABCDEFGHIJKLMNOPQRSTUVWXYZ'' ''abcdefghijklmnopqrstuvwxyz'') c of
        Some l \<Rightarrow> l
      | None \<Rightarrow> c)"

definition lower :: "unicode_db \<Rightarrow> string \<Rightarrow> string" where
  "lower db s = (if list_all is_ascii s then map lower_char s else uc_lower db s)"

text \<open>\<^verbatim>\<open>file_name.rsplit('.', 1)[0]\<close>: the part before the last dot, or the whole name.\<close>

definition rsplit_dot_head :: "string \<Rightarrow> string" where
  "rsplit_dot_head s =
     (if CHR ''.'' \<in> set s
      then rev (tl (dropWhile (\<lambda>c. c \<noteq> CHR ''.'') (rev s)))
      else s)"

text \<open>
  A Python \<^verbatim>\<open>dict\<close> is an association list with distinct keys in insertion order:
  \<^verbatim>\<open>d[k] = v\<close> is \<^const>\<open>AList.update\<close> (the value is replaced in place when \<open>k\<close> is
  there, the pair is appended otherwise), \<^verbatim>\<open>d[k]\<close> and \<^verbatim>\<open>k in d\<close> read \<^const>\<open>map_of\<close>.
  \<^verbatim>\<open>dict(zip(ks, vs))\<close> stores the pairs from left to right.
\<close>

definition dict_of_pairs :: "('k \<times> 'v) list \<Rightarrow> ('k \<times> 'v) list" where
  "dict_of_pairs ps = foldl (\<lambda>d (k, v). AList.update k v d) [] ps"

section \<open>Logging\<close>

text \<open>
  A log record keeps the level, a key naming the message of the source, and the values
  the message interpolates. The text of a caught exception is not modelled.
\<close>

datatype level = DEBUG | INFO | WARNING | ERROR

datatype log_entry = Log level string "string list"

section \<open>\<^verbatim>\<open>convert_to_text\<close>\<close>

text \<open>
  The index into \<open>number_words\<close> is \<open>int(score)\<close> with \<open>0 \<le> score \<le> 10\<close> and
  \<open>int(score) \<noteq> 10\<close>, so it is in range (lemma \<open>convert_to_text_index\<close> below).
\<close>

definition convert_to_text :: "pyval \<Rightarrow> string" where
  "convert_to_text score =
     (if isna score then word_vang
      else case num_of score of
        None \<Rightarrow> word_khong_hop_le
      | Some r \<Rightarrow>
          if r < 0 \<or> 10 < r then word_khong_hop_le
          else
            let integer_part = py_int r;
                decimal_part = r - of_int integer_part
            in if integer_part = 10 then word_muoi
               else if decimal_part = 0 then number_words ! nat integer_part
               else if py_round1 decimal_part = 1 / 2
                 then number_words ! nat integer_part @ suffix_ruoi
               else number_words ! nat integer_part)"

section \<open>Documents, spreadsheets and the file system\<close>

text \<open>
  A word of a page as \<^verbatim>\<open>pdfplumber\<close> extracts it, and the calls the program makes on a
  \<^verbatim>\<open>reportlab\<close> canvas, in the order it makes them.
\<close>

record word =
  w_text :: string
  w_x0 :: real
  w_top :: real
  w_bottom :: real

datatype draw =
    SetFont string nat
  | DrawString real real string
  | DrawCentredString real real string
  | SetFillColorBlack
  | Circle real real real

type_synonym canvas = "draw list"

text \<open>
  A page carries its words (\<^verbatim>\<open>page.extract_words()\<close>), its text
  (\<^verbatim>\<open>page.extract_text()\<close>, which may be \<open>None\<close>), the overlays merged onto it so far, and
  whether reading its overlay back or merging it raises in the PDF library. The text a
  later extraction would find in merged overlays is not modelled.
\<close>

record page =
  words :: "word list"
  page_text :: "string option"
  marks :: "draw list"
  merge_raises :: bool

type_synonym table = "(string \<times> pyval list) list"

datatype file_data =
    PdfFile "page list"
  | XlsxFile table
  | OtherFile

text \<open>
  A path is a directory and a name in it (\<^verbatim>\<open>os.path.join(directory, name)\<close>). A directory
  is the list of its entries in the order \<^verbatim>\<open>os.listdir\<close> gives them; a new name is put
  at the end. The world also holds the current directory, where relative names are
  written, the log, the Unicode data of the Python that runs the program, and whether the
  constructor of \<^verbatim>\<open>GradeProcessor\<close> has registered the font \<^verbatim>\<open>arial\<close> (it does when it
  finds a font file, and only warns otherwise).
\<close>

type_synonym path = "string \<times> string"

record world =
  dirs :: "string \<Rightarrow> (string \<times> file_data) list"
  cwd :: string
  log :: "log_entry list"
  unidata :: unicode_db
  arial_registered :: bool

definition listdir :: "world \<Rightarrow> string \<Rightarrow> string list" where
  "listdir w d = map fst (dirs w d)"

definition read_file :: "world \<Rightarrow> path \<Rightarrow> file_data option" where
  "read_file w p = map_of (dirs w (fst p)) (snd p)"

definition path_exists :: "world \<Rightarrow> path \<Rightarrow> bool" where
  "path_exists w p = (read_file w p \<noteq> None)"

definition write_file :: "world \<Rightarrow> path \<Rightarrow> file_data \<Rightarrow> world" where
  "write_file w p f = w\<lparr>dirs := (dirs w)(fst p := AList.update (snd p) f (dirs w (fst p)))\<rparr>"

text \<open>\<^verbatim>\<open>os.rename\<close> inside one directory, onto a name that is free.\<close>

definition rename_file :: "world \<Rightarrow> string \<Rightarrow> string \<Rightarrow> string \<Rightarrow> world" where
  "rename_file w d old new =
     (case map_of (dirs w d) old of
        None \<Rightarrow> w
      | Some f \<Rightarrow> w\<lparr>dirs := (dirs w)(d := AList.delete old (dirs w d) @ [(new, f)])\<rparr>)"

definition logmsg :: "world \<Rightarrow> level \<Rightarrow> string \<Rightarrow> string list \<Rightarrow> world" where
  "logmsg w lv key args = w\<lparr>log := log w @ [Log lv key args]\<rparr>"

definition path_str :: "path \<Rightarrow> string" where
  "path_str p = fst p @ ''/'' @ snd p"

subsection \<open>Column names and keywords of the source\<close>

definition col_ma_sv :: string where
  "col_ma_sv = ''M'' @ [CHR 0xC3, CHR 0xA3] @ '' SV''"

definition col_diem :: string where
  "col_diem = [CHR 0xC4, CHR 0x90] @ ''i'' @ [CHR 0xE1, CHR 0xBB, CHR 0x83] @ ''m''"

definition kw_qua_trinh :: string where
  "kw_qua_trinh = ''qu'' @ [CHR 0xC3, CHR 0xA1] @ '' tr'' @ [CHR 0xC3, CHR 0xAC] @ ''nh''"

definition kw_giua_ky :: string where
  "kw_giua_ky = ''gi'' @ [CHR 0xE1, CHR 0xBB, CHR 0xAF] @ ''a k'' @ [CHR 0xE1, CHR 0xBB, CHR 0xB3]"

definition kw_cuoi_ky :: string where
  "kw_cuoi_ky = ''cu'' @ [CHR 0xE1, CHR 0xBB, CHR 0x91] @ ''i k'' @ [CHR 0xE1, CHR 0xBB, CHR 0xB3]"

text \<open>\<^verbatim>\<open>grade_columns\<close> of \<^verbatim>\<open>prepare_grade_files\<close> and \<^verbatim>\<open>keywords\<close> of \<^verbatim>\<open>rename_pdf_files\<close>.\<close>

definition grade_columns :: "(string \<times> string) list" where
  "grade_columns =
     [(''qt'', col_diem @ '' '' @ kw_qua_trinh),
      (''gk'', col_diem @ '' '' @ kw_giua_ky),
      (''ck'', col_diem @ '' '' @ kw_cuoi_ky)]"

definition keywords_map :: "(string \<times> string) list" where
  "keywords_map = [(kw_qua_trinh, ''_qt''), (kw_giua_ky, ''_gk''), (kw_cuoi_ky, ''_ck'')]"

section \<open>\<^verbatim>\<open>load_excel_data\<close>\<close>

text \<open>
  \<^verbatim>\<open>astype(str)\<close> on a cell of the ID column, as pandas 1 and 2 do it for the columns
  \<^verbatim>\<open>read_excel\<close> gives: \<^verbatim>\<open>str\<close> is applied to every cell, a missing one included, and
  \<^verbatim>\<open>.str.strip()\<close> then applies \<^verbatim>\<open>str.strip\<close> to every cell. The digits Python prints for
  a float are those of its shortest decimal form, which the real number alone does not
  give: they are the parameter \<open>float_str\<close>.
\<close>

fun py_str :: "(real \<Rightarrow> string) \<Rightarrow> pyval \<Rightarrow> string" where
  "py_str float_str PNone = ''None''"
| "py_str float_str PNaN = ''nan''"
| "py_str float_str (PInt i) = (if i < 0 then ''-'' @ str_nat (nat (- i)) else str_nat (nat i))"
| "py_str float_str (PFloat r) = float_str r"
| "py_str float_str (PBool b) = (if b then ''True'' else ''False'')"
| "py_str float_str (PStr s) = s"

text \<open>
  \<^verbatim>\<open>df['Diem'] < 0\<close> compares every cell with a number; a string cell makes the
  comparison raise \<open>TypeError\<close>, missing cells compare false.
\<close>

fun compare_raises :: "pyval \<Rightarrow> bool" where
  "compare_raises (PStr s) = True"
| "compare_raises _ = False"

definition out_of_range :: "pyval \<Rightarrow> bool" where
  "out_of_range s =
     (\<not> isna s \<and> (case num_of s of None \<Rightarrow> False | Some r \<Rightarrow> r < 0 \<or> 10 < r))"

definition load_excel_data ::
  "(real \<Rightarrow> string) \<Rightarrow> world \<Rightarrow> path \<Rightarrow> (string \<times> pyval) list option \<times> world" where
  "load_excel_data float_str w excel_path =
     (if \<not> path_exists w excel_path
      then (None, logmsg w ERROR ''excel file does not exist'' [path_str excel_path])
      else case read_file w excel_path of
        Some (XlsxFile df) \<Rightarrow>
          (case (map_of df col_ma_sv, map_of df col_diem) of
             (Some id_cells, Some scores) \<Rightarrow>
               let ids = map (\<lambda>c. py_strip (py_str float_str c)) id_cells
               in if list_ex compare_raises scores
                  then (None, logmsg w ERROR ''error reading excel file'' [path_str excel_path])
                  else
                    let invalid_scores =
                          map fst (filter (\<lambda>(i, s). out_of_range s) (zip ids scores));
                        w1 = (if invalid_scores \<noteq> []
                              then logmsg w WARNING ''students with invalid scores''
                                     [str_nat (length invalid_scores),
                                      join_comma (take 5 invalid_scores)
                                        @ (if 5 < length invalid_scores then ''...'' else [])]
                              else w);
                        grades = dict_of_pairs (zip ids scores)
                    in (Some grades,
                        logmsg w1 INFO ''read students from excel file''
                          [str_nat (length grades), path_str excel_path])
           | _ \<Rightarrow> (None, logmsg w ERROR ''excel file lacks a column'' [path_str excel_path]))
      | _ \<Rightarrow> (None, logmsg w ERROR ''error reading excel file'' [path_str excel_path]))"

section \<open>\<^verbatim>\<open>find_grade_column\<close> and \<^verbatim>\<open>extract_student_positions\<close>\<close>

definition find_grade_column :: "world \<Rightarrow> path \<Rightarrow> (real \<times> real \<times> real) option \<times> world" where
  "find_grade_column w pdf_path =
     (case read_file w pdf_path of
        Some (PdfFile pages) \<Rightarrow>
          (case find (\<lambda>wd. contains (w_text wd) col_diem) (concat (map words pages)) of
             Some wd \<Rightarrow> (Some (w_x0 wd, w_top wd, w_bottom wd), w)
           | None \<Rightarrow> (None, logmsg w WARNING ''grade column not found'' [path_str pdf_path]))
      | _ \<Rightarrow> (None, logmsg w ERROR ''error finding grade column'' [path_str pdf_path]))"

text \<open>
  \<^verbatim>\<open>re.match(r'\b[1-9]\d{8}\b', text)\<close> matches at the start of the token: one of the
  digits 1 to 9, then eight characters of the class \<^verbatim>\<open>\d\<close>, and then the end of the token
  or a character that is not of the class \<^verbatim>\<open>\w\<close>. The first \<^verbatim>\<open>\b\<close> holds as soon as the
  first character is a digit. \<open>match_digits db n s\<close> reads \<open>n\<close> characters of the class
  \<^verbatim>\<open>\d\<close> from the front of \<open>s\<close> and gives the rest, or \<open>None\<close> when \<open>s\<close> does not start with
  that many.
\<close>

fun match_digits :: "unicode_db \<Rightarrow> nat \<Rightarrow> string \<Rightarrow> string option" where
  "match_digits db 0 s = Some s"
| "match_digits db (Suc n) s =
     (if s = [] then None
      else if is_decimal db (first_char s) then match_digits db n (after_first_char s)
      else None)"

definition student_id_match :: "unicode_db \<Rightarrow> string \<Rightarrow> bool" where
  "student_id_match db t =
     (t \<noteq> [] \<and> hd t \<in> set ''123456789''
      \<and> (case match_digits db 8 (tl t) of
            None \<Rightarrow> False
          | Some rest \<Rightarrow> rest = [] \<or> \<not> is_word db (first_char rest)))"

type_synonym positions = "(string \<times> (real \<times> real \<times> nat)) list"

fun scan_words :: "unicode_db \<Rightarrow> positions \<Rightarrow> nat \<Rightarrow> word list \<Rightarrow> positions" where
  "scan_words db student_positions page_num [] = student_positions"
| "scan_words db student_positions page_num (wd # ws) =
     scan_words db
       (if student_id_match db (w_text wd)
        then AList.update (w_text wd) (w_x0 wd, w_top wd, page_num) student_positions
        else student_positions)
       page_num ws"

fun scan_pages :: "unicode_db \<Rightarrow> positions \<Rightarrow> nat \<Rightarrow> page list \<Rightarrow> positions" where
  "scan_pages db student_positions page_num [] = student_positions"
| "scan_pages db student_positions page_num (p # ps) =
     scan_pages db (scan_words db student_positions page_num (words p)) (Suc page_num) ps"

definition extract_student_positions :: "world \<Rightarrow> path \<Rightarrow> positions \<times> world" where
  "extract_student_positions w pdf_path =
     (case read_file w pdf_path of
        Some (PdfFile pages) \<Rightarrow>
          (let student_positions = scan_pages (unidata w) [] 1 pages
           in (student_positions,
               logmsg w INFO ''found student ids''
                 [str_nat (length student_positions), path_str pdf_path]))
      | _ \<Rightarrow> ([], logmsg w ERROR ''error extracting student positions'' [path_str pdf_path]))"

section \<open>\<^verbatim>\<open>add_grade_to_pdf\<close>\<close>

record info =
  supervisor1 :: string
  supervisor2 :: string
  grader1 :: string
  grader2 :: string

definition add_header_info :: "canvas \<Rightarrow> nat \<Rightarrow> nat \<Rightarrow> info \<Rightarrow> canvas" where
  "add_header_info can total_students absent_count info =
     can @ [DrawString 125 93.5 (str_nat total_students),
            DrawString 125 75 (str_nat absent_count),
            DrawCentredString 380 52 (supervisor1 info),
            DrawCentredString 380 15 (supervisor2 info),
            DrawCentredString 505 52 (grader1 info),
            DrawCentredString 505 15 (grader2 info)]"

definition draw_score_circles :: "canvas \<Rightarrow> real \<Rightarrow> real \<Rightarrow> real \<Rightarrow> canvas" where
  "draw_score_circles can column_x y_adjusted score =
     (let circle_x = column_x + 44.5 + of_int (py_int score) * 16.7;
          circle_y = y_adjusted + 3;
          circle_diameter = 4 * 2.8346;
          radius = circle_diameter / 2;
          can1 = can @ [SetFillColorBlack, Circle circle_x circle_y radius]
      in if py_round1 (score - of_int (py_int score)) = 1 / 2
         then can1 @ [Circle (column_x + 229) (y_adjusted + 3) radius]
         else can1)"

text \<open>
  \<^verbatim>\<open>_add_student_grades\<close>. The result is \<open>None\<close> when the comparison
  \<^verbatim>\<open>0 <= score <= 10\<close> raises \<open>TypeError\<close>, which it does on a score that is neither
  missing nor a number; the function does not catch it.
\<close>

fun add_student_grades ::
  "world \<Rightarrow> canvas \<Rightarrow> positions \<Rightarrow> (string \<times> pyval) list \<Rightarrow> nat \<Rightarrow> real
     \<Rightarrow> canvas option \<times> world" where
  "add_student_grades w can [] grades page_num column_x = (Some can, w)"
| "add_student_grades w can ((ma_sv_pdf, position) # rest) grades page_num column_x =
     (if int (snd (snd position)) - 1 \<noteq> int page_num
      then add_student_grades w can rest grades page_num column_x
      else
        let ma_sv = py_strip ma_sv_pdf;
            x = column_x - 12;
            y = fst (snd position);
            y_adjusted = 832 - y
        in case map_of grades ma_sv of
             Some score \<Rightarrow>
               let can1 = can @ [DrawString x y_adjusted (convert_to_text score)]
               in if isna score
                  then add_student_grades w can1 rest grades page_num column_x
                  else (case num_of score of
                          None \<Rightarrow> (None, w)
                        | Some r \<Rightarrow>
                            if 0 \<le> r \<and> r \<le> 10
                            then add_student_grades w
                                   (draw_score_circles can1 column_x y_adjusted r)
                                   rest grades page_num column_x
                            else add_student_grades w can1 rest grades page_num column_x)
           | None \<Rightarrow>
               add_student_grades (logmsg w DEBUG ''student id not in excel file'' [ma_sv])
                 can rest grades page_num column_x)"

text \<open>
  The canvas of one page: lines 219 to 228 of the page loop. \<^verbatim>\<open>setFont\<close> raises
  \<open>KeyError\<close> for a font name that is not registered; the result is \<open>None\<close> then.
\<close>

definition build_overlay ::
  "world \<Rightarrow> nat \<Rightarrow> nat \<Rightarrow> info \<Rightarrow> positions \<Rightarrow> (string \<times> pyval) list \<Rightarrow> nat \<Rightarrow> real
     \<Rightarrow> canvas option \<times> world" where
  "build_overlay w total_students absent_count info student_positions grades page_num column_x =
     (if \<not> arial_registered w then (None, w)
      else
        let can = [SetFont ''arial'' 9];
            can1 = (if page_num = 0
                    then add_header_info can total_students absent_count info
                    else can)
        in add_student_grades w can1 student_positions grades page_num column_x)"

text \<open>
  \<^verbatim>\<open>len(new_pdf_reader.pages)\<close> for the overlay \<^verbatim>\<open>can.save()\<close> writes: the canvas ends its
  page only when something was written to it, and \<^verbatim>\<open>setFont\<close> with a registered TrueType
  font (\<^verbatim>\<open>TTFont\<close>) writes nothing, it only records the font for the text drawn later. So
  the overlay has one page when the program has drawn a string or a circle, and none
  otherwise.
\<close>

fun draws_content :: "draw \<Rightarrow> bool" where
  "draws_content (SetFont font_name font_size) = False"
| "draws_content _ = True"

definition overlay_pages :: "canvas \<Rightarrow> nat" where
  "overlay_pages can = (if list_ex draws_content can then 1 else 0)"

text \<open>
  The page loop. \<open>writer\<close> is the list of pages added to the \<^verbatim>\<open>PdfWriter\<close> so far. An
  error while the overlay is read back or merged is logged and the page is added as it is;
  an overlay without a page is not merged.
\<close>

fun process_pages ::
  "world \<Rightarrow> page list \<Rightarrow> nat \<Rightarrow> page list \<Rightarrow> nat \<Rightarrow> nat \<Rightarrow> info \<Rightarrow> positions
     \<Rightarrow> (string \<times> pyval) list \<Rightarrow> real \<Rightarrow> page list option \<times> world" where
  "process_pages w writer page_num [] total_students absent_count info sp grades column_x = (Some writer, w)"
| "process_pages w writer page_num (pg # rest) total_students absent_count info sp grades column_x =
     (case build_overlay w total_students absent_count info sp grades page_num column_x of
        (None, w1) \<Rightarrow> (None, w1)
      | (Some can, w1) \<Rightarrow>
          if merge_raises pg
          then process_pages
                 (logmsg w1 ERROR ''error creating new page'' [str_nat (page_num + 1)])
                 (writer @ [pg]) (Suc page_num) rest total_students absent_count info sp grades column_x
          else process_pages w1
                 (writer @ [if 0 < overlay_pages can then pg\<lparr>marks := marks pg @ can\<rparr> else pg])
                 (Suc page_num) rest total_students absent_count info sp grades column_x)"

definition add_grade_to_pdf ::
  "world \<Rightarrow> path \<Rightarrow> path \<Rightarrow> (string \<times> pyval) list \<Rightarrow> info \<Rightarrow> bool \<times> world" where
  "add_grade_to_pdf w input_pdf output_pdf grades info =
     (if \<not> path_exists w input_pdf
      then (False, logmsg w ERROR ''input pdf does not exist'' [path_str input_pdf])
      else case read_file w input_pdf of
        Some (PdfFile pages) \<Rightarrow>
          (case find_grade_column w input_pdf of
             (None, w1) \<Rightarrow>
               (False, logmsg w1 ERROR ''grade column not found in pdf'' [path_str input_pdf])
           | (Some (column_x, column_top, column_bottom), w1) \<Rightarrow>
               (case extract_student_positions w1 input_pdf of
                  (student_positions, w2) \<Rightarrow>
                    if student_positions = []
                    then (False,
                          logmsg w2 ERROR ''no student id found in pdf'' [path_str input_pdf])
                    else
                      let total_students = length student_positions;
                          absent_count =
                            length (filter
                              (\<lambda>(ma_sv, pos). case map_of grades ma_sv of
                                                Some score \<Rightarrow> isna score
                                              | None \<Rightarrow> False)
                              student_positions);
                          w3 = logmsg w2 INFO ''total and absent students''
                                 [str_nat total_students, str_nat absent_count];
                          missing_students =
                            length (filter (\<lambda>(ma_sv, pos). map_of grades ma_sv = None)
                                      student_positions);
                          w4 = (if 0 < missing_students
                                then logmsg w3 WARNING ''student ids not in excel file''
                                       [str_nat missing_students]
                                else w3)
                      in case process_pages w4 [] 0 pages total_students absent_count info
                                student_positions grades column_x of
                           (None, w5) \<Rightarrow>
                             (False,
                              logmsg w5 ERROR ''error adding grades to pdf'' [path_str input_pdf])
                         | (Some writer, w5) \<Rightarrow>
                             (True,
                              logmsg (write_file w5 output_pdf (PdfFile writer)) INFO
                                ''created file'' [path_str output_pdf])))
      | _ \<Rightarrow> (False, logmsg w ERROR ''error adding grades to pdf'' [path_str input_pdf]))"

section \<open>\<^verbatim>\<open>prepare_grade_files\<close>\<close>

text \<open>
  The loop over \<^verbatim>\<open>grade_columns\<close>: for each score column the sheet has, a sheet with
  the two columns \<^verbatim>\<open>Ma SV\<close> and \<^verbatim>\<open>Diem\<close> is written to \<^verbatim>\<open>grade_<type>.xlsx\<close>, a
  relative name, so in the current directory.
\<close>

fun split_columns ::
  "world \<Rightarrow> table \<Rightarrow> pyval list \<Rightarrow> (string \<times> string) list \<Rightarrow> string list
     \<Rightarrow> string list \<times> world" where
  "split_columns w df id_cells [] available_types = (available_types, w)"
| "split_columns w df id_cells ((grade_type, column) # rest) available_types =
     (case map_of df column of
        Some cells \<Rightarrow>
          let grade_df = [(col_ma_sv, id_cells), (col_diem, cells)];
              grade_file = ''grade_'' @ grade_type @ ''.xlsx'';
              w1 = write_file w (cwd w, grade_file) (XlsxFile grade_df)
          in split_columns (logmsg w1 INFO ''created file'' [grade_file]) df id_cells rest
               (available_types @ [grade_type])
      | None \<Rightarrow> split_columns w df id_cells rest available_types)"

text \<open>The result \<open>None\<close> stands for \<^verbatim>\<open>False\<close>.\<close>

definition prepare_grade_files :: "world \<Rightarrow> path \<Rightarrow> string list option \<times> world" where
  "prepare_grade_files w input_excel =
     (if \<not> path_exists w input_excel
      then (None, logmsg w ERROR ''input excel file does not exist'' [path_str input_excel])
      else case read_file w input_excel of
        Some (XlsxFile df) \<Rightarrow>
          (case map_of df ''StudentID'' of
             None \<Rightarrow>
               (None, logmsg w ERROR ''excel file lacks column StudentID'' [path_str input_excel])
           | Some id_cells \<Rightarrow>
               (case split_columns w df id_cells grade_columns [] of
                  (available_types, w1) \<Rightarrow>
                    if available_types = []
                    then (None,
                          logmsg w1 ERROR ''no score column in excel file'' [path_str input_excel])
                    else (Some available_types, w1)))
      | _ \<Rightarrow> (None, logmsg w ERROR ''error preparing grade files'' [path_str input_excel]))"

section \<open>\<^verbatim>\<open>rename_pdf_files\<close>\<close>

lemma str_nat_nonempty: "str_nat n \<noteq> []"
  by (subst str_nat.simps) simp

lemma digit_char_inj:
  assumes "a < 10" "b < 10" "''0123456789'' ! a = ''0123456789'' ! b"
  shows "a = b"
proof -
  have d: "distinct ''0123456789''" by simp
  have "a < length ''0123456789''" "b < length ''0123456789''" using assms by simp_all
  then show ?thesis using assms(3) d nth_eq_iff_index_eq by blast
qed

lemma str_nat_inj: "str_nat n = str_nat m \<Longrightarrow> n = m"
proof (induction n arbitrary: m rule: str_nat.induct)
  case (1 n)
  show ?case
  proof (cases "n < 10")
    case True
    note n10 = this
    show ?thesis
    proof (cases "m < 10")
      case True
      then show ?thesis using "1.prems" n10 digit_char_inj [of n m]
        by (simp add: str_nat.simps [of n] str_nat.simps [of m])
    next
      case False
      have "length (str_nat m) \<ge> 2"
        using False str_nat_nonempty [of "m div 10"]
        by (subst str_nat.simps) (cases "str_nat (m div 10)"; simp)
      moreover have "length (str_nat n) = 1" using n10 by (subst str_nat.simps) simp
      ultimately show ?thesis using "1.prems" by simp
    qed
  next
    case False
    note n10 = this
    show ?thesis
    proof (cases "m < 10")
      case True
      have "length (str_nat n) \<ge> 2"
        using n10 str_nat_nonempty [of "n div 10"]
        by (subst str_nat.simps) (cases "str_nat (n div 10)"; simp)
      moreover have "length (str_nat m) = 1" using True by (subst str_nat.simps) simp
      ultimately show ?thesis using "1.prems" by simp
    next
      case False
      have e: "str_nat (n div 10) @ [''0123456789'' ! (n mod 10)]
             = str_nat (m div 10) @ [''0123456789'' ! (m mod 10)]"
        using "1.prems" n10 False by (simp add: str_nat.simps [of n] str_nat.simps [of m])
      then have a: "str_nat (n div 10) = str_nat (m div 10)"
        and b: "''0123456789'' ! (n mod 10) = ''0123456789'' ! (m mod 10)" by simp_all
      have "n div 10 = m div 10" using "1.IH" [OF n10 a] .
      moreover have "n mod 10 = m mod 10" using digit_char_inj [OF _ _ b] by simp
      ultimately show ?thesis by (metis div_mult_mod_eq)
    qed
  qed
qed

text \<open>
  The names the loop of \<^verbatim>\<open>rename_pdf_files\<close> tries after the first: \<open>stem_1.pdf\<close>,
  \<open>stem_2.pdf\<close>, and so on. Different counters give different names, so only finitely many
  of them are in a directory.
\<close>

definition candidate :: "string \<Rightarrow> nat \<Rightarrow> string" where
  "candidate stem counter = stem @ ''_'' @ str_nat counter @ ''.pdf''"

lemma candidate_inj: "candidate stem a = candidate stem b \<Longrightarrow> a = b"
  by (simp add: candidate_def str_nat_inj)

lemma finite_taken: "finite {k. candidate stem k \<in> set names}"
proof -
  have "inj (candidate stem)" by (rule injI) (rule candidate_inj)
  then have "finite (candidate stem -` set names)"
    by (intro finite_vimageI) simp_all
  then show ?thesis by (simp add: vimage_def)
qed

text \<open>
  The \<^verbatim>\<open>while os.path.exists(new_file_path)\<close> loop, with \<open>names\<close> the names in the
  directory. It ends: each round either leaves the names that are taken, or uses up one
  of the finitely many taken names with a counter not yet tried.
\<close>

function free_name :: "string list \<Rightarrow> string \<Rightarrow> nat \<Rightarrow> string \<Rightarrow> string" where
  "free_name names stem counter new_file_name =
     (if new_file_name \<in> set names
      then free_name names stem (counter + 1) (stem @ ''_'' @ str_nat counter @ ''.pdf'')
      else new_file_name)"
  by pat_completeness auto
termination
proof (relation "measure (\<lambda>(names, stem, counter, new_file_name).
          2 * card {k. counter \<le> k \<and> candidate stem k \<in> set names}
          + (if new_file_name \<in> set names then 1 else 0))")
  show "wf (measure (\<lambda>(names, stem, counter, new_file_name).
          2 * card {k. counter \<le> k \<and> candidate stem k \<in> set names}
          + (if new_file_name \<in> set names then 1 else 0)))"
    by simp
next
  fix names :: "string list" and stem :: string and counter :: nat and new_file_name :: string
  assume h: "new_file_name \<in> set names"
  let ?A = "{k. counter \<le> k \<and> candidate stem k \<in> set names}"
  let ?B = "{k. counter + 1 \<le> k \<and> candidate stem k \<in> set names}"
  have fin: "finite ?A" using finite_taken [of stem names] by (rule rev_finite_subset) auto
  have sub: "?B \<subseteq> ?A" by auto
  show "((names, stem, counter + 1, stem @ ''_'' @ str_nat counter @ ''.pdf''),
         (names, stem, counter, new_file_name))
        \<in> measure (\<lambda>(names, stem, counter, new_file_name).
          2 * card {k. counter \<le> k \<and> candidate stem k \<in> set names}
          + (if new_file_name \<in> set names then 1 else 0))"
  proof (cases "candidate stem counter \<in> set names")
    case True
    then have "counter \<in> ?A" "counter \<notin> ?B" by auto
    then have "?B \<subset> ?A" using sub by blast
    then have "card ?B < card ?A" using fin by (rule psubset_card_mono [rotated])
    then show ?thesis using h by (simp add: candidate_def)
  next
    case False
    have "card ?B \<le> card ?A" using fin sub by (rule card_mono)
    then show ?thesis using h False by (simp add: candidate_def)
  qed
qed

declare free_name.simps [simp del]

text \<open>The first keyword found in the lower-cased text decides the suffix.\<close>

definition find_suffix :: "unicode_db \<Rightarrow> string \<Rightarrow> string option" where
  "find_suffix db content =
     map_option snd
       (find (\<lambda>(keyword, suffix_value). contains (lower db content) keyword) keywords_map)"

text \<open>
  The body of the loop over the directory listing, for one name. A file that cannot be
  opened or read as a PDF is logged and skipped.
\<close>

definition rename_one ::
  "world \<Rightarrow> string \<Rightarrow> string \<Rightarrow> (string \<times> string) list \<Rightarrow> (string \<times> string) list \<times> world" where
  "rename_one w directory file_name renamed_files =
     (if \<not> endswith file_name ''.pdf'' then (renamed_files, w)
      else case read_file w (directory, file_name) of
        Some (PdfFile pages) \<Rightarrow>
          (let content = concat (map (\<lambda>p. case page_text p of None \<Rightarrow> [] | Some t \<Rightarrow> t) pages)
           in case find_suffix (unidata w) content of
                None \<Rightarrow> (renamed_files, w)
              | Some suffix \<Rightarrow>
                  let base_name = rsplit_dot_head file_name
                  in if list_ex (endswith base_name) (map snd keywords_map)
                     then (renamed_files, w)
                     else
                       let new_file_name =
                             free_name (listdir w directory) (base_name @ suffix) 1
                               (base_name @ suffix @ ''.pdf'');
                           w1 = rename_file w directory file_name new_file_name
                       in (AList.update file_name new_file_name renamed_files,
                           logmsg w1 INFO ''renamed file'' [file_name, new_file_name]))
      | _ \<Rightarrow> (renamed_files, logmsg w ERROR ''error renaming file'' [file_name]))"

fun rename_loop ::
  "world \<Rightarrow> string \<Rightarrow> string list \<Rightarrow> (string \<times> string) list \<Rightarrow> (string \<times> string) list \<times> world" where
  "rename_loop w directory [] renamed_files = (renamed_files, w)"
| "rename_loop w directory (file_name # rest) renamed_files =
     (case rename_one w directory file_name renamed_files of
        (renamed_files1, w1) \<Rightarrow> rename_loop w1 directory rest renamed_files1)"

definition rename_pdf_files :: "world \<Rightarrow> string \<Rightarrow> (string \<times> string) list \<times> world" where
  "rename_pdf_files w directory = rename_loop w directory (listdir w directory) []"

section \<open>\<^verbatim>\<open>process_grade_type\<close> and \<^verbatim>\<open>process_files\<close>\<close>

text \<open>The list comprehension that selects the documents of a category.\<close>

definition pdf_files_of :: "world \<Rightarrow> string \<Rightarrow> string \<Rightarrow> string list" where
  "pdf_files_of w directory grade_type =
     filter (\<lambda>f. endswith f ''.pdf'' \<and> contains f (grade_type @ ''.pdf''))
       (listdir w directory)"

fun process_pdfs ::
  "world \<Rightarrow> string \<Rightarrow> string list \<Rightarrow> (string \<times> pyval) list \<Rightarrow> info \<Rightarrow> nat \<Rightarrow> nat \<times> world" where
  "process_pdfs w directory [] grades info success_count = (success_count, w)"
| "process_pdfs w directory (pdf_file # rest) grades info success_count =
     (case add_grade_to_pdf w (directory, pdf_file) (directory, ''output_'' @ pdf_file)
             grades info of
        (ok, w1) \<Rightarrow>
          process_pdfs w1 directory rest grades info
            (if ok then success_count + 1 else success_count))"

definition process_grade_type ::
  "(real \<Rightarrow> string) \<Rightarrow> world \<Rightarrow> string \<Rightarrow> string \<Rightarrow> info \<Rightarrow> nat \<times> world" where
  "process_grade_type float_str w directory grade_type info =
     (let excel_file = (directory, ''grade_'' @ grade_type @ ''.xlsx'')
      in if \<not> path_exists w excel_file
         then (0, logmsg w WARNING ''excel file not found'' [path_str excel_file])
         else
           let pdf_files = pdf_files_of w directory grade_type
           in if pdf_files = []
              then (0, logmsg w WARNING ''no pdf file for grade type'' [grade_type])
              else case load_excel_data float_str w excel_file of
                     (None, w1) \<Rightarrow> (0, w1)
                   | (Some grades, w1) \<Rightarrow> process_pdfs w1 directory pdf_files grades info 0)"

text \<open>
  The categories one after the other. With \<^verbatim>\<open>parallel\<close> and more than one category the
  program hands them to a thread pool and logs each count as it completes; the order in
  which concurrent categories interleave is not modelled, the model runs them in the order
  of \<open>available_types\<close> in both branches.
\<close>

fun process_types ::
  "(real \<Rightarrow> string) \<Rightarrow> world \<Rightarrow> string \<Rightarrow> string list \<Rightarrow> info \<Rightarrow> world" where
  "process_types float_str w directory [] info = w"
| "process_types float_str w directory (grade_type # rest) info =
     (case process_grade_type float_str w directory grade_type info of
        (count, w1) \<Rightarrow>
          process_types float_str
            (logmsg w1 INFO ''processed files for grade type'' [str_nat count, grade_type])
            directory rest info)"

text \<open>
  \<^verbatim>\<open>glob(os.path.join(directory, "*.xlsx"))\<close>: the star does not match a leading dot. The
  name of the directory is taken to have none of the characters \<^verbatim>\<open>*\<close>, \<^verbatim>\<open>?\<close> and \<^verbatim>\<open>[\<close>,
  which \<^verbatim>\<open>glob\<close> would read as a pattern for directory names.
\<close>

definition glob_xlsx :: "world \<Rightarrow> string \<Rightarrow> string list" where
  "glob_xlsx w directory =
     filter (\<lambda>n. endswith n ''.xlsx'' \<and> \<not> (n \<noteq> [] \<and> hd n = CHR ''.'')) (listdir w directory)"

definition process_files ::
  "(real \<Rightarrow> string) \<Rightarrow> world \<Rightarrow> string \<Rightarrow> info \<Rightarrow> bool \<Rightarrow> bool \<times> world" where
  "process_files float_str w directory info parallel =
     (let xlsx_files = glob_xlsx w directory
      in if xlsx_files = [] then (False, logmsg w ERROR ''no xlsx file found'' [])
         else
           let input_file = (directory, hd xlsx_files)
           in case prepare_grade_files w input_file of
                (None, w1) \<Rightarrow> (False, w1)
              | (Some available_types, w1) \<Rightarrow>
                  (case rename_pdf_files w1 directory of
                     (renamed_files, w2) \<Rightarrow>
                       if parallel \<and> 1 < length available_types
                       then (True, process_types float_str w2 directory available_types info)
                       else (True, process_types float_str w2 directory available_types info)))"

section \<open>Reference notions and sample inputs for the properties\<close>

text \<open>
  A student ID in the words of the specification: exactly nine digits, the first of them
  not 0.
\<close>

definition nine_digit_id :: "string \<Rightarrow> bool" where
  "nine_digit_id t = (length t = 9 \<and> list_all is_digit t \<and> hd t \<noteq> CHR ''0'')"

text \<open>
  The tokens of a document in page and word order: every word with its position and its
  page number (counted from \<open>page_num\<close>). The occurrences of a token are its entries in
  this list.
\<close>

definition word_entries :: "nat \<Rightarrow> word list \<Rightarrow> positions" where
  "word_entries page_num ws = map (\<lambda>wd. (w_text wd, (w_x0 wd, w_top wd, page_num))) ws"

fun token_occurrences :: "nat \<Rightarrow> page list \<Rightarrow> positions" where
  "token_occurrences page_num [] = []"
| "token_occurrences page_num (p # ps) =
     word_entries page_num (words p) @ token_occurrences (Suc page_num) ps"

text \<open>Those of the tokens that the regular expression of the program matches.\<close>

definition page_entries :: "unicode_db \<Rightarrow> nat \<Rightarrow> word list \<Rightarrow> positions" where
  "page_entries db page_num ws =
     map (\<lambda>wd. (w_text wd, (w_x0 wd, w_top wd, page_num)))
       (filter (\<lambda>wd. student_id_match db (w_text wd)) ws)"

fun id_occurrences :: "unicode_db \<Rightarrow> nat \<Rightarrow> page list \<Rightarrow> positions" where
  "id_occurrences db page_num [] = []"
| "id_occurrences db page_num (p # ps) =
     page_entries db page_num (words p) @ id_occurrences db (Suc page_num) ps"

text \<open>
  The Unicode data of the sample inputs. Their characters beyond ASCII are the small and
  capital letters of the Vietnamese words of the program: none of them is a decimal digit,
  each is alphanumeric, and the texts that are lower-cased have no capital among them.
\<close>

definition sample_unicode :: unicode_db where
  "sample_unicode =
     \<lparr>uc_decimal = (\<lambda>c. False), uc_alnum = (\<lambda>c. True), uc_lower = map lower_char\<rparr>"

text \<open>A document of two pages that both show the ID \<open>123456789\<close>, at different heights.\<close>

definition dup_page1 :: page where
  "dup_page1 = \<lparr>words = [\<lparr>w_text = ''123456789'', w_x0 = 50, w_top = 100, w_bottom = 110\<rparr>],
     page_text = None, marks = [], merge_raises = False\<rparr>"

definition dup_page2 :: page where
  "dup_page2 = \<lparr>words = [\<lparr>w_text = ''123456789'', w_x0 = 50, w_top = 200, w_bottom = 210\<rparr>],
     page_text = None, marks = [], merge_raises = False\<rparr>"

definition dup_world :: world where
  "dup_world = \<lparr>dirs = (\<lambda>d. if d = ''d'' then [(''a.pdf'', PdfFile [dup_page1, dup_page2])] else []),
     cwd = ''d'', log = [], unidata = sample_unicode, arial_registered = True\<rparr>"

text \<open>
  An entry of the position table is on the page with index \<open>page_num\<close> when its page
  number, counted from 1, is \<open>page_num + 1\<close>.
\<close>

definition on_page :: "nat \<Rightarrow> string \<times> (real \<times> real \<times> nat) \<Rightarrow> bool" where
  "on_page page_num e = (int (snd (snd (snd e))) - 1 = int page_num)"

text \<open>
  The marks of one student, in the words of the specification: the grade text at
  \<open>x = column_x - 12\<close>, \<open>y = 832 - student_top\<close>; for a score that is a number in
  \<open>[0, 10]\<close> a filled circle of radius \<open>(4 * 2.8346) / 2\<close> at
  \<open>x = column_x + 44.5 + floor(score) * 16.7\<close>, \<open>y = (832 - student_top) + 3\<close>, and a second
  circle at \<open>x = column_x + 229\<close> on the same row when the fractional part rounds to
  \<open>0.5\<close> at one decimal. A student whose ID is not a key of the grade table gets nothing.
\<close>

definition student_marks ::
  "(string \<times> pyval) list \<Rightarrow> real \<Rightarrow> string \<times> (real \<times> real \<times> nat) \<Rightarrow> draw list" where
  "student_marks grades column_x e =
     (let student_top = fst (snd (snd e));
          draw_y = 832 - student_top
      in case map_of grades (py_strip (fst e)) of
           None \<Rightarrow> []
         | Some score \<Rightarrow>
             DrawString (column_x - 12) draw_y (convert_to_text score)
             # (case num_of score of
                  None \<Rightarrow> []
                | Some r \<Rightarrow>
                    if 0 \<le> r \<and> r \<le> 10
                    then [SetFillColorBlack,
                          Circle (column_x + 44.5 + of_int \<lfloor>r\<rfloor> * 16.7) (draw_y + 3)
                            (4 * 2.8346 / 2)]
                         @ (if py_round1 (frac r) = 1 / 2
                            then [Circle (column_x + 229) (draw_y + 3) (4 * 2.8346 / 2)]
                            else [])
                    else []))"

text \<open>
  Every student of the page whose ID is in the grade table has a score that is missing or
  a number, so that the comparison \<^verbatim>\<open>0 <= score <= 10\<close> does not raise.
\<close>

definition scores_comparable ::
  "(string \<times> pyval) list \<Rightarrow> nat \<Rightarrow> positions \<Rightarrow> bool" where
  "scores_comparable grades page_num sp =
     list_all (\<lambda>e. on_page page_num e \<longrightarrow>
                  (case map_of grades (py_strip (fst e)) of
                     None \<Rightarrow> True
                   | Some score \<Rightarrow> isna score \<or> num_of score \<noteq> None)) sp"

text \<open>
  The marks of one overlay page: the font, the header on page index 0, then the marks of
  the students of the page in the order of the position table. Merging puts them on the
  page unless the merge raises or the overlay has no page.
\<close>

definition header_marks :: "nat \<Rightarrow> nat \<Rightarrow> info \<Rightarrow> draw list" where
  "header_marks total_students absent_count info =
     [DrawString 125 93.5 (str_nat total_students),
      DrawString 125 75 (str_nat absent_count),
      DrawCentredString 380 52 (supervisor1 info),
      DrawCentredString 380 15 (supervisor2 info),
      DrawCentredString 505 52 (grader1 info),
      DrawCentredString 505 15 (grader2 info)]"

definition overlay_marks ::
  "nat \<Rightarrow> nat \<Rightarrow> info \<Rightarrow> positions \<Rightarrow> (string \<times> pyval) list \<Rightarrow> real \<Rightarrow> nat \<Rightarrow> draw list" where
  "overlay_marks total_students absent_count info sp grades column_x page_num =
     [SetFont ''arial'' 9]
     @ (if page_num = 0 then header_marks total_students absent_count info else [])
     @ concat (map (student_marks grades column_x) (filter (on_page page_num) sp))"

definition merge_overlay :: "page \<Rightarrow> draw list \<Rightarrow> page" where
  "merge_overlay pg can =
     (if merge_raises pg \<or> overlay_pages can = 0 then pg else pg\<lparr>marks := marks pg @ can\<rparr>)"

definition absent_students :: "(string \<times> pyval) list \<Rightarrow> positions \<Rightarrow> nat" where
  "absent_students grades sp =
     length (filter (\<lambda>e. case map_of grades (fst e) of Some score \<Rightarrow> isna score | None \<Rightarrow> False) sp)"

text \<open>
  Sample inputs: a document with the column header and no student ID; and a score sheet of
  two pages, whose second page cannot be merged, with its grade table.
\<close>

definition sample_info :: info where
  "sample_info = \<lparr>supervisor1 = ''A'', supervisor2 = ''B'', grader1 = ''C'', grader2 = ''D''\<rparr>"

definition header_world :: world where
  "header_world =
     \<lparr>dirs = (\<lambda>d. if d = ''d''
                then [(''h.pdf'', PdfFile [\<lparr>words = [\<lparr>w_text = col_diem, w_x0 = 100, w_top = 40, w_bottom = 50\<rparr>],
                        page_text = None, marks = [], merge_raises = False\<rparr>])]
                else []),
      cwd = ''d'', log = [], unidata = sample_unicode, arial_registered = True\<rparr>"

definition sheet_page1 :: page where
  "sheet_page1 =
     \<lparr>words = [\<lparr>w_text = col_diem, w_x0 = 100, w_top = 40, w_bottom = 50\<rparr>,
               \<lparr>w_text = ''100000001'', w_x0 = 50, w_top = 100, w_bottom = 110\<rparr>,
               \<lparr>w_text = ''100000002'', w_x0 = 50, w_top = 120, w_bottom = 130\<rparr>],
      page_text = None, marks = [], merge_raises = False\<rparr>"

definition sheet_page2 :: page where
  "sheet_page2 =
     \<lparr>words = [\<lparr>w_text = ''100000003'', w_x0 = 50, w_top = 100, w_bottom = 110\<rparr>],
      page_text = None, marks = [], merge_raises = True\<rparr>"

definition sheet_world :: world where
  "sheet_world =
     \<lparr>dirs = (\<lambda>d. if d = ''d'' then [(''s_qt.pdf'', PdfFile [sheet_page1, sheet_page2])] else []),
      cwd = ''d'', log = [], unidata = sample_unicode, arial_registered = True\<rparr>"

definition sheet_grades :: "(string \<times> pyval) list" where
  "sheet_grades = [(''100000001'', PFloat 8.5), (''100000002'', PNaN), (''100000003'', PInt 7)]"

definition sheet_positions :: positions where
  "sheet_positions =
     [(''100000001'', (50, 100, 1)), (''100000002'', (50, 120, 1)), (''100000003'', (50, 100, 2))]"

text \<open>
  The keys of the grade table: every cell of the ID column made a string and stripped. The
  IDs \<^verbatim>\<open>load_excel_data\<close> lists in its warning: those of the rows whose score is present
  and below 0 or above 10.
\<close>

definition normalized_ids :: "(real \<Rightarrow> string) \<Rightarrow> pyval list \<Rightarrow> string list" where
  "normalized_ids float_str id_cells = map (\<lambda>c. py_strip (py_str float_str c)) id_cells"

definition invalid_ids :: "string list \<Rightarrow> pyval list \<Rightarrow> string list" where
  "invalid_ids ids scores = map fst (filter (\<lambda>(i, s). out_of_range s) (zip ids scores))"

text \<open>
  A grade sheet of three rows, one with the score 11 and an ID written between a no-break
  space (U+00A0) and a blank.
\<close>

definition padded_id :: string where
  "padded_id = [CHR 0xC2, CHR 0xA0] @ ''100000002 ''"

definition grade_sheet :: table where
  "grade_sheet =
     [(col_ma_sv, [PInt 100000001, PStr padded_id, PInt 100000003]),
      (col_diem, [PFloat 8.5, PInt 11, PNaN])]"

definition excel_world :: world where
  "excel_world =
     \<lparr>dirs = (\<lambda>d. if d = ''d'' then [(''grade_qt.xlsx'', XlsxFile grade_sheet)] else []),
      cwd = ''d'', log = [], unidata = sample_unicode, arial_registered = True\<rparr>"

text \<open>
  A grade sheet whose two rows carry the same ID, once as the number 1 with the score 11
  and once as the text \<^verbatim>\<open>'1 '\<close> with the score 5.
\<close>

definition repeat_sheet :: table where
  "repeat_sheet = [(col_ma_sv, [PInt 1, PStr ''1 '']), (col_diem, [PInt 11, PInt 5])]"

definition repeat_world :: world where
  "repeat_world =
     \<lparr>dirs = (\<lambda>d. if d = ''d'' then [(''grade_qt.xlsx'', XlsxFile repeat_sheet)] else []),
      cwd = ''d'', log = [], unidata = sample_unicode, arial_registered = True\<rparr>"

text \<open>A directory with a grade sheet and a backup copy of a score sheet.\<close>

definition backup_world :: world where
  "backup_world =
     \<lparr>dirs = (\<lambda>d. if d = ''d''
                then [(''a_qt.pdf.bak'', OtherFile), (''grade_qt.xlsx'', XlsxFile [])]
                else []),
      cwd = ''d'', log = [], unidata = sample_unicode, arial_registered = True\<rparr>"

text \<open>The categories whose score column a sheet has, in the order of \<open>grade_columns\<close>.\<close>

definition present_types :: "table \<Rightarrow> string list" where
  "present_types df = map fst (filter (\<lambda>(grade_type, column). map_of df column \<noteq> None) grade_columns)"

text \<open>
  A working directory with a sheet that has the process-score column and one document
  that mentions the process score and shows neither a column header nor a student ID; and
  a directory with two such documents, one of them already named with the suffix.
\<close>

definition batch_sheet :: table where
  "batch_sheet =
     [(''StudentID'', [PInt 100000001]), (col_diem @ '' '' @ kw_qua_trinh, [PFloat 8.5])]"

definition batch_page :: page where
  "batch_page = \<lparr>words = [], page_text = Some kw_qua_trinh, marks = [], merge_raises = False\<rparr>"

definition batch_world :: world where
  "batch_world =
     \<lparr>dirs = (\<lambda>d. if d = ''d''
                then [(''scores.xlsx'', XlsxFile batch_sheet), (''a.pdf'', PdfFile [batch_page])]
                else []),
      cwd = ''d'', log = [], unidata = sample_unicode, arial_registered = True\<rparr>"

definition collide_world :: world where
  "collide_world =
     \<lparr>dirs = (\<lambda>d. if d = ''d''
                then [(''a.pdf'', PdfFile [batch_page]), (''a_qt.pdf'', PdfFile [batch_page])]
                else []),
      cwd = ''d'', log = [], unidata = sample_unicode, arial_registered = True\<rparr>"

section \<open>Properties\<close>

text \<open>Logging changes the log and nothing else.\<close>

lemma logmsg_fields [simp]:
  "dirs (logmsg w lv key args) = dirs w"
  "cwd (logmsg w lv key args) = cwd w"
  "unidata (logmsg w lv key args) = unidata w"
  "arial_registered (logmsg w lv key args) = arial_registered w"
  by (simp_all add: logmsg_def)

lemma py_int_range:
  assumes "0 \<le> r" "r \<le> 10"
  shows "0 \<le> py_int r \<and> py_int r \<le> 10"
proof -
  have "py_int r = \<lfloor>r\<rfloor>" using assms by (simp add: py_int_def)
  moreover have "0 \<le> \<lfloor>r\<rfloor>" using assms by simp
  moreover have "\<lfloor>r\<rfloor> \<le> 10" using assms by (simp add: floor_le_iff)
  ultimately show ?thesis by simp
qed

lemma convert_to_text_index:
  assumes "0 \<le> r" "r \<le> 10" "py_int r \<noteq> 10"
  shows "nat (py_int r) < length number_words"
proof -
  have "length number_words = 10" by (simp add: number_words_def)
  moreover have "nat (py_int r) < 10"
    using py_int_range [OF assms(1,2)] assms(3) by linarith
  ultimately show ?thesis by simp
qed

lemma num_of_not_isna: "num_of s = Some r \<Longrightarrow> \<not> isna s"
  by (cases s) simp_all

text \<open>
  Rounding to one decimal gives \<open>0.5\<close> exactly for the values strictly between \<open>0.45\<close> and
  \<open>0.55\<close>: both ties go to the even neighbour.
\<close>

lemma py_round1_half_iff: "py_round1 d = 1 / 2 \<longleftrightarrow> 9 / 20 < d \<and> d < 11 / 20"
proof -
  have "py_round1 d = 1 / 2 \<longleftrightarrow> round_half_even (d * 10) = 5"
    by (simp add: py_round1_def)
  also have "\<dots> \<longleftrightarrow> 9 / 20 < d \<and> d < 11 / 20"
  proof
    assume h: "round_half_even (d * 10) = 5"
    have b: "real_of_int \<lfloor>d * 10\<rfloor> \<le> d * 10" "d * 10 < real_of_int \<lfloor>d * 10\<rfloor> + 1"
      by linarith+
    show "9 / 20 < d \<and> d < 11 / 20"
    proof (cases "d * 10 - real_of_int \<lfloor>d * 10\<rfloor> < 1 / 2")
      case True
      then have "\<lfloor>d * 10\<rfloor> = 5" using h by (simp add: round_half_even_def Let_def)
      then show ?thesis using True b by simp
    next
      case False
      note nlt = this
      show ?thesis
      proof (cases "1 / 2 < d * 10 - real_of_int \<lfloor>d * 10\<rfloor>")
        case True
        then have "\<lfloor>d * 10\<rfloor> = 4" using h nlt by (simp add: round_half_even_def Let_def)
        then show ?thesis using True b by simp
      next
        case False
        then have e: "d * 10 - real_of_int \<lfloor>d * 10\<rfloor> = 1 / 2" using nlt by simp
        have "\<lfloor>d * 10\<rfloor> = 5 \<or> \<lfloor>d * 10\<rfloor> = 4"
          using h e by (simp add: round_half_even_def Let_def split: if_splits)
        then have False using h e by (auto simp: round_half_even_def Let_def)
        then show ?thesis ..
      qed
    qed
  next
    assume h: "9 / 20 < d \<and> d < 11 / 20"
    have "\<lfloor>d * 10\<rfloor> = 4 \<or> \<lfloor>d * 10\<rfloor> = 5"
    proof (cases "d * 10 < 5")
      case True
      then have "\<lfloor>d * 10\<rfloor> = 4" using h by (simp add: floor_eq_iff)
      then show ?thesis ..
    next
      case False
      then have "\<lfloor>d * 10\<rfloor> = 5" using h by (simp add: floor_eq_iff)
      then show ?thesis ..
    qed
    then show "round_half_even (d * 10) = 5"
      using h by (auto simp: round_half_even_def Let_def)
  qed
  finally show ?thesis .
qed

subsection \<open>C3: the cases of \<^verbatim>\<open>convert_to_text\<close>\<close>

text \<open>
  Claim C3. \<open>convert_to_text\<close> is a function of its argument alone. An absent score
  (\<open>None\<close>, NaN) gives the absence marker; a value that is not a number, or a number below
  0 or above 10 (such as \<open>-1\<close> and \<open>11\<close>), gives the invalid marker; otherwise, with
  \<open>int(score)\<close> the integer part: integer part 10 gives the word for ten, a zero fractional
  part gives the word of the integer part, a fractional part that rounds to \<open>0.5\<close> at one
  decimal gives that word followed by the half suffix, and any other fractional part gives
  the word alone.
\<close>

theorem convert_to_text_cases:
  "(isna s \<longrightarrow> convert_to_text s = word_vang)
   \<and> (\<not> isna s \<and> num_of s = None \<longrightarrow> convert_to_text s = word_khong_hop_le)
   \<and> (num_of s = Some r \<and> (r < 0 \<or> 10 < r) \<longrightarrow> convert_to_text s = word_khong_hop_le)
   \<and> (num_of s = Some r \<and> 0 \<le> r \<and> r \<le> 10 \<and> py_int r = 10 \<longrightarrow>
        convert_to_text s = word_muoi)
   \<and> (num_of s = Some r \<and> 0 \<le> r \<and> r \<le> 10 \<and> py_int r \<noteq> 10
        \<and> r - of_int (py_int r) = 0 \<longrightarrow>
        convert_to_text s = number_words ! nat (py_int r))
   \<and> (num_of s = Some r \<and> 0 \<le> r \<and> r \<le> 10 \<and> py_int r \<noteq> 10
        \<and> r - of_int (py_int r) \<noteq> 0
        \<and> py_round1 (r - of_int (py_int r)) = 1 / 2 \<longrightarrow>
        convert_to_text s = number_words ! nat (py_int r) @ suffix_ruoi)
   \<and> (num_of s = Some r \<and> 0 \<le> r \<and> r \<le> 10 \<and> py_int r \<noteq> 10
        \<and> r - of_int (py_int r) \<noteq> 0
        \<and> py_round1 (r - of_int (py_int r)) \<noteq> 1 / 2 \<longrightarrow>
        convert_to_text s = number_words ! nat (py_int r))
   \<and> convert_to_text (PInt (- 1)) = word_khong_hop_le
   \<and> convert_to_text (PInt 11) = word_khong_hop_le"
  using num_of_not_isna [of s r]
  by (auto simp: convert_to_text_def Let_def)

theorem convert_to_text_cases_witness:
  "convert_to_text PNaN = word_vang
   \<and> convert_to_text (PStr ''x'') = word_khong_hop_le
   \<and> convert_to_text (PFloat (21 / 2)) = word_khong_hop_le
   \<and> convert_to_text (PInt 10) = word_muoi
   \<and> convert_to_text (PInt 3) = number_words ! 3
   \<and> convert_to_text (PFloat (17 / 2)) = number_words ! 8 @ suffix_ruoi
   \<and> convert_to_text (PFloat (29 / 4)) = number_words ! 7"
  using convert_to_text_cases [of PNaN]
    convert_to_text_cases [of "PStr ''x''"]
    convert_to_text_cases [of "PFloat (21 / 2)" "21 / 2"]
    convert_to_text_cases [of "PInt 10" 10]
    convert_to_text_cases [of "PInt 3" 3]
    convert_to_text_cases [of "PFloat (17 / 2)" "17 / 2"]
    convert_to_text_cases [of "PFloat (29 / 4)" "29 / 4"]
  by (simp add: py_int_def py_round1_def round_half_even_def)

subsection \<open>C2: one position per student ID, the last occurrence kept\<close>

lemma is_digit_ascii: "is_digit c \<Longrightarrow> is_ascii c"
  by (auto simp: is_digit_def is_ascii_def)

lemma match_digits_ascii:
  "list_all is_digit s \<Longrightarrow> length s = n \<Longrightarrow> match_digits db n s = Some []"
proof (induction n arbitrary: s)
  case 0
  then show ?case by simp
next
  case (Suc n)
  then obtain c s' where s: "s = c # s'" by (cases s) auto
  have d: "is_digit c" and r: "list_all is_digit s'" and l: "length s' = n"
    using Suc.prems s by simp_all
  have a: "is_ascii c" using d by (rule is_digit_ascii)
  then have "char_len c = 1" by (simp add: is_ascii_def char_len_def)
  then have f: "first_char s = [c]" and g: "after_first_char s = s'"
    using s by (simp_all add: first_char_def after_first_char_def)
  have "is_decimal db (first_char s)" using a d f by (simp add: is_decimal_def)
  then show ?case using s g Suc.IH [OF r l] by simp
qed

text \<open>
  Every token of nine digits that does not start with 0 matches the regular expression,
  whatever the Unicode data.
\<close>

lemma nine_digit_id_match: "nine_digit_id t \<Longrightarrow> student_id_match db t"
proof -
  assume h: "nine_digit_id t"
  then obtain c s where t: "t = c # s" by (cases t) (auto simp: nine_digit_id_def)
  have "is_digit c" "c \<noteq> CHR ''0''" using h t by (simp_all add: nine_digit_id_def)
  then have c: "c \<in> set ''123456789''" by (auto simp: is_digit_def)
  have "list_all is_digit s" "length s = 8" using h t by (simp_all add: nine_digit_id_def)
  then have "match_digits db 8 s = Some []" by (rule match_digits_ascii)
  then show ?thesis using t c by (simp add: student_id_match_def)
qed

lemma student_id_match_hd: "hd t \<notin> set ''123456789'' \<Longrightarrow> \<not> student_id_match db t"
  by (simp add: student_id_match_def)

text \<open>
  The match is anchored at the start of the token only: a token of nine digits and a full
  stop matches, one of ten digits does not, and nine digits followed by a letter beyond
  ASCII do not match either. A decimal digit beyond ASCII counts for \<^verbatim>\<open>\d\<close>.
\<close>

lemma student_id_match_examples:
  "student_id_match db ''123456788.''"
  "\<not> student_id_match db ''1234567890''"
  "\<not> student_id_match db ''012345678''"
  "uc_alnum db [CHR 0xC3, CHR 0xA9] \<Longrightarrow>
     \<not> student_id_match db (''123456784'' @ [CHR 0xC3, CHR 0xA9])"
  "uc_decimal db [CHR 0xD9, CHR 0xA3] \<Longrightarrow>
     student_id_match db (''12345678'' @ [CHR 0xD9, CHR 0xA3])"
  by (simp_all add: student_id_match_def eval_nat_numeral is_decimal_def is_word_def is_ascii_def
      is_digit_def is_word_char_def first_char_def after_first_char_def char_len_def)

lemma sample_ids:
  "student_id_match db ''123456789''" "student_id_match db ''100000001''"
  "student_id_match db ''100000002''" "student_id_match db ''100000003''"
  by (rule nine_digit_id_match, simp add: nine_digit_id_def is_digit_def)+

lemma sample_no_id: "\<not> student_id_match db col_diem"
  by (rule student_id_match_hd) (simp add: col_diem_def)

lemma map_of_scan_words:
  "map_of (scan_words db sp n ws) = map_of (rev (page_entries db n ws) @ sp)"
proof (induction ws arbitrary: sp)
  case Nil
  show ?case by (simp add: page_entries_def)
next
  case (Cons wd ws)
  show ?case
    by (simp add: Cons.IH page_entries_def update_conv' map_add_def fun_eq_iff split: option.splits)
qed

lemma map_of_scan_pages:
  "map_of (scan_pages db sp n ps) = map_of (rev (id_occurrences db n ps) @ sp)"
proof (induction ps arbitrary: sp n)
  case Nil
  show ?case by simp
next
  case (Cons p ps)
  show ?case
    by (simp add: Cons.IH map_of_scan_words)
qed

lemma distinct_scan_words:
  "distinct (map fst sp) \<Longrightarrow> distinct (map fst (scan_words db sp n ws))"
  by (induction ws arbitrary: sp) (simp_all add: distinct_update)

lemma distinct_scan_pages:
  "distinct (map fst sp) \<Longrightarrow> distinct (map fst (scan_pages db sp n ps))"
  by (induction ps arbitrary: sp n) (simp_all add: distinct_scan_words)

text \<open>The matched occurrences are the tokens that match, in the same order.\<close>

lemma id_occurrences_filter:
  "id_occurrences db n ps = filter (\<lambda>e. student_id_match db (fst e)) (token_occurrences n ps)"
  by (induction ps arbitrary: n)
     (simp_all add: page_entries_def word_entries_def filter_map comp_def)

lemma map_of_filter_key:
  "P k \<Longrightarrow> map_of (filter (\<lambda>e. P (fst e)) xs) k = map_of xs k"
  by (induction xs) auto

lemma map_of_rev_last:
  "map_of (rev xs) k = Some v \<longleftrightarrow> (\<exists>ys zs. xs = ys @ (k, v) # zs \<and> k \<notin> fst ` set zs)"
proof (induction xs rule: rev_induct)
  case Nil
  show ?case by simp
next
  case (snoc x xs)
  show ?case
  proof (cases "fst x = k")
    case True
    have "(\<exists>ys zs. xs @ [x] = ys @ (k, v) # zs \<and> k \<notin> fst ` set zs) \<longleftrightarrow> snd x = v"
    proof
      assume "\<exists>ys zs. xs @ [x] = ys @ (k, v) # zs \<and> k \<notin> fst ` set zs"
      then obtain ys zs where e: "xs @ [x] = ys @ (k, v) # zs" and n: "k \<notin> fst ` set zs"
        by blast
      show "snd x = v"
      proof (cases zs rule: rev_cases)
        case Nil
        then show ?thesis using e by simp
      next
        case (snoc zs' z)
        then have "x = z" using e by simp
        then have "k \<in> fst ` set zs" using snoc True by force
        then show ?thesis using n by simp
      qed
    next
      assume "snd x = v"
      then have "xs @ [x] = xs @ (k, v) # []" using True by (cases x) simp
      then show "\<exists>ys zs. xs @ [x] = ys @ (k, v) # zs \<and> k \<notin> fst ` set zs"
        by (metis empty_iff image_empty list.set(1))
    qed
    then show ?thesis using True by (cases x) auto
  next
    case False
    have "(\<exists>ys zs. xs @ [x] = ys @ (k, v) # zs \<and> k \<notin> fst ` set zs)
          \<longleftrightarrow> (\<exists>ys zs. xs = ys @ (k, v) # zs \<and> k \<notin> fst ` set zs)"
    proof
      assume "\<exists>ys zs. xs @ [x] = ys @ (k, v) # zs \<and> k \<notin> fst ` set zs"
      then obtain ys zs where e: "xs @ [x] = ys @ (k, v) # zs" and n: "k \<notin> fst ` set zs"
        by blast
      show "\<exists>ys zs. xs = ys @ (k, v) # zs \<and> k \<notin> fst ` set zs"
      proof (cases zs rule: rev_cases)
        case Nil
        then show ?thesis using e False by auto
      next
        case (snoc zs' z)
        then have "xs = ys @ (k, v) # zs'" using e by simp
        moreover have "k \<notin> fst ` set zs'" using n snoc by auto
        ultimately show ?thesis by blast
      qed
    next
      assume "\<exists>ys zs. xs = ys @ (k, v) # zs \<and> k \<notin> fst ` set zs"
      then obtain ys zs where e: "xs = ys @ (k, v) # zs" and n: "k \<notin> fst ` set zs"
        by blast
      have "xs @ [x] = ys @ (k, v) # (zs @ [x])" using e by simp
      moreover have "k \<notin> fst ` set (zs @ [x])" using n False by auto
      ultimately show "\<exists>ys zs. xs @ [x] = ys @ (k, v) # zs \<and> k \<notin> fst ` set zs"
        by blast
    qed
    then show ?thesis using False snoc.IH by (cases x) auto
  qed
qed

text \<open>
  What \<open>extract_student_positions\<close> returns for a readable document: a table with distinct
  keys that maps every token to the position of its last matched occurrence.
\<close>

lemma extract_student_positions_entries:
  assumes "read_file w pdf_path = Some (PdfFile pages)"
  shows "distinct (map fst (fst (extract_student_positions w pdf_path)))"
    and "map_of (fst (extract_student_positions w pdf_path))
           = map_of (rev (id_occurrences (unidata w) 1 pages))"
proof -
  have e: "fst (extract_student_positions w pdf_path) = scan_pages (unidata w) [] 1 pages"
    using assms by (simp add: extract_student_positions_def Let_def)
  show "distinct (map fst (fst (extract_student_positions w pdf_path)))"
    unfolding e by (rule distinct_scan_pages) simp
  show "map_of (fst (extract_student_positions w pdf_path))
           = map_of (rev (id_occurrences (unidata w) 1 pages))"
    unfolding e by (simp add: map_of_scan_pages)
qed

text \<open>
  Claim C2 says that the first occurrence of a repeated ID is the one kept. The program
  stores each match with \<^verbatim>\<open>student_positions[text] = ...\<close>, which replaces the position
  stored before: in the two-page document the ID's first occurrence is on page 1 at height
  100, and the position returned is that of page 2, at height 200.
\<close>

theorem extract_student_positions_first_not_kept:
  "read_file dup_world (''d'', ''a.pdf'') = Some (PdfFile [dup_page1, dup_page2])
   \<and> nine_digit_id ''123456789''
   \<and> token_occurrences 1 [dup_page1, dup_page2]
       = [(''123456789'', (50, 100, 1)), (''123456789'', (50, 200, 2))]
   \<and> fst (extract_student_positions dup_world (''d'', ''a.pdf''))
       = [(''123456789'', (50, 200, 2))]
   \<and> map_of (fst (extract_student_positions dup_world (''d'', ''a.pdf''))) ''123456789''
       \<noteq> Some (50, 100, 1)"
  by (simp add: extract_student_positions_def read_file_def dup_world_def dup_page1_def
      dup_page2_def word_entries_def sample_ids nine_digit_id_def is_digit_def)

text \<open>
  Claim C2, amended. For a readable document the result has exactly one position per
  distinct token that is a student ID (exactly nine digits, not leading with 0): its keys
  are distinct, such a token is a key exactly when it occurs in the document, and its
  position is that of its last occurrence in page and word order, the one that no
  occurrence of the same ID follows. Earlier occurrences are overwritten.
\<close>

theorem extract_student_positions_last_wins:
  assumes "read_file w pdf_path = Some (PdfFile pages)"
  shows "distinct (map fst (fst (extract_student_positions w pdf_path)))
    \<and> (\<forall>t. nine_digit_id t \<longrightarrow>
          (t \<in> fst ` set (fst (extract_student_positions w pdf_path))
             \<longleftrightarrow> t \<in> fst ` set (token_occurrences 1 pages))
          \<and> (\<forall>pos. map_of (fst (extract_student_positions w pdf_path)) t = Some pos \<longleftrightarrow>
                (\<exists>before after. token_occurrences 1 pages = before @ (t, pos) # after
                   \<and> t \<notin> fst ` set after)))"
proof -
  note r = extract_student_positions_entries [OF assms]
  have each: "(t \<in> fst ` set (fst (extract_student_positions w pdf_path))
             \<longleftrightarrow> t \<in> fst ` set (token_occurrences 1 pages))
          \<and> (\<forall>pos. map_of (fst (extract_student_positions w pdf_path)) t = Some pos \<longleftrightarrow>
                (\<exists>before after. token_occurrences 1 pages = before @ (t, pos) # after
                   \<and> t \<notin> fst ` set after))"
    if t: "nine_digit_id t" for t
  proof -
    have m: "student_id_match (unidata w) t" using t by (rule nine_digit_id_match)
    have "map_of (rev (id_occurrences (unidata w) 1 pages)) t
        = map_of (filter (\<lambda>e. student_id_match (unidata w) (fst e))
            (rev (token_occurrences 1 pages))) t"
      by (simp add: id_occurrences_filter rev_filter)
    also have "\<dots> = map_of (rev (token_occurrences 1 pages)) t"
      using m by (rule map_of_filter_key)
    finally have e: "map_of (fst (extract_student_positions w pdf_path)) t
        = map_of (rev (token_occurrences 1 pages)) t"
      by (simp add: r(2))
    have "t \<in> fst ` set (fst (extract_student_positions w pdf_path))
        \<longleftrightarrow> map_of (fst (extract_student_positions w pdf_path)) t \<noteq> None"
      by (simp add: map_of_eq_None_iff)
    also have "\<dots> \<longleftrightarrow> t \<in> fst ` set (rev (token_occurrences 1 pages))"
      unfolding e by (simp only: map_of_eq_None_iff) simp
    finally have k: "t \<in> fst ` set (fst (extract_student_positions w pdf_path))
        \<longleftrightarrow> t \<in> fst ` set (token_occurrences 1 pages)"
      by simp
    show ?thesis using k by (simp only: e map_of_rev_last) simp
  qed
  show ?thesis using r(1) each by blast
qed

theorem extract_student_positions_last_wins_witness:
  "read_file dup_world (''d'', ''a.pdf'') = Some (PdfFile [dup_page1, dup_page2])
   \<and> nine_digit_id ''123456789''
   \<and> distinct (map fst (fst (extract_student_positions dup_world (''d'', ''a.pdf''))))
   \<and> ''123456789'' \<in> fst ` set (fst (extract_student_positions dup_world (''d'', ''a.pdf'')))
   \<and> map_of (fst (extract_student_positions dup_world (''d'', ''a.pdf''))) ''123456789''
       = Some (50, 200, 2)"
proof -
  have h: "read_file dup_world (''d'', ''a.pdf'') = Some (PdfFile [dup_page1, dup_page2])"
    by (simp add: read_file_def dup_world_def)
  have n: "nine_digit_id ''123456789''"
    by (simp add: nine_digit_id_def is_digit_def)
  have o: "token_occurrences 1 [dup_page1, dup_page2]
       = [(''123456789'', (50, 100, 1))] @ (''123456789'', (50, 200, 2)) # []"
    by (simp add: dup_page1_def dup_page2_def word_entries_def)
  have l: "\<exists>before after. token_occurrences 1 [dup_page1, dup_page2]
       = before @ (''123456789'', (50, 200, 2)) # after \<and> ''123456789'' \<notin> fst ` set after"
    using o by (intro exI [of _ "[(''123456789'', (50, 100, 1))]"] exI [of _ "[]"]) simp
  have i: "''123456789'' \<in> fst ` set (token_occurrences 1 [dup_page1, dup_page2])"
    unfolding o by simp
  show ?thesis
    using h n l i extract_student_positions_last_wins [OF h] by blast
qed

subsection \<open>The marks \<^verbatim>\<open>_add_student_grades\<close> draws\<close>

lemma draw_score_circles_eq:
  assumes "0 \<le> r"
  shows "draw_score_circles can column_x y r =
     can @ [SetFillColorBlack, Circle (column_x + 44.5 + of_int \<lfloor>r\<rfloor> * 16.7) (y + 3) (4 * 2.8346 / 2)]
         @ (if py_round1 (frac r) = 1 / 2 then [Circle (column_x + 229) (y + 3) (4 * 2.8346 / 2)] else [])"
  using assms by (simp add: draw_score_circles_def py_int_def frac_def Let_def)

lemma isna_num_of: "isna score \<Longrightarrow> num_of score = None"
  by (cases score) simp_all

lemma add_student_grades_step:
  "add_student_grades w can (e # rest) grades page_num column_x =
     (if \<not> on_page page_num e then add_student_grades w can rest grades page_num column_x
      else case map_of grades (py_strip (fst e)) of
        None \<Rightarrow>
          add_student_grades
            (logmsg w DEBUG ''student id not in excel file'' [py_strip (fst e)])
            can rest grades page_num column_x
      | Some score \<Rightarrow>
          if isna score \<or> num_of score \<noteq> None
          then add_student_grades w (can @ student_marks grades column_x e) rest grades
                 page_num column_x
          else (None, w))"
proof -
  obtain ma_sv_pdf position where Pair: "e = (ma_sv_pdf, position)"
    by (metis surj_pair)
  show ?thesis
  proof (cases "on_page page_num e")
    case False
    then show ?thesis using Pair by (simp add: on_page_def)
  next
    case True
    note onp = this
    show ?thesis
    proof (cases "map_of grades (py_strip ma_sv_pdf)")
      case None
      then show ?thesis using Pair onp by (simp add: on_page_def Let_def)
    next
      case (Some score)
      note sc = this
      show ?thesis
      proof (cases "isna score")
        case True
        then show ?thesis using Pair onp sc isna_num_of [OF True]
          by (simp add: on_page_def student_marks_def Let_def)
      next
        case False
        note nna = this
        show ?thesis
        proof (cases "num_of score")
          case None
          then show ?thesis using Pair onp sc nna by (simp add: on_page_def Let_def)
        next
          case (Some r)
          show ?thesis
          proof (cases "0 \<le> r \<and> r \<le> 10")
            case True
            then have "draw_score_circles
                (can @ [DrawString (column_x - 12) (832 - fst (snd position)) (convert_to_text score)])
                column_x (832 - fst (snd position)) r
              = can @ student_marks grades column_x e"
              using Pair sc Some
              by (simp add: draw_score_circles_eq student_marks_def Let_def)
            then show ?thesis using Pair onp sc nna Some True
              by (simp add: on_page_def Let_def)
          next
            case False
            then have "can @ [DrawString (column_x - 12) (832 - fst (snd position)) (convert_to_text score)]
              = can @ student_marks grades column_x e"
              using Pair sc Some
              by (simp add: student_marks_def Let_def)
            then show ?thesis using Pair onp sc nna Some False
              by (auto simp: on_page_def Let_def)
          qed
        qed
      qed
    qed
  qed
qed

lemma add_student_grades_Some:
  "fst (add_student_grades w can sp grades page_num column_x) = Some c \<Longrightarrow>
   c = can @ concat (map (student_marks grades column_x) (filter (on_page page_num) sp))"
proof (induction sp arbitrary: w can)
  case Nil
  then show ?case by simp
next
  case (Cons e rest)
  show ?case
  proof (cases "on_page page_num e")
    case False
    then show ?thesis using Cons.prems Cons.IH [of w can]
      by (simp only: add_student_grades_step) simp
  next
    case True
    show ?thesis
    proof (cases "map_of grades (py_strip (fst e))")
      case None
      then have "student_marks grades column_x e = []" by (simp add: student_marks_def)
      then show ?thesis
        using Cons.prems True None
          Cons.IH [of "logmsg w DEBUG ''student id not in excel file'' [py_strip (fst e)]" can]
        by (simp only: add_student_grades_step) simp
    next
      case (Some score)
      show ?thesis
      proof (cases "isna score \<or> num_of score \<noteq> None")
        case True
        then show ?thesis
          using Cons.prems \<open>on_page page_num e\<close> Some
            Cons.IH [of w "can @ student_marks grades column_x e"]
          by (simp only: add_student_grades_step) simp
      next
        case False
        then show ?thesis
          using Cons.prems \<open>on_page page_num e\<close> Some
          by (simp only: add_student_grades_step) simp
      qed
    qed
  qed
qed

lemma add_student_grades_total:
  "scores_comparable grades page_num sp \<Longrightarrow>
   fst (add_student_grades w can sp grades page_num column_x) \<noteq> None"
proof (induction sp arbitrary: w can)
  case Nil
  then show ?case by simp
next
  case (Cons e rest)
  then show ?case
    by (simp only: add_student_grades_step)
       (auto simp: scores_comparable_def split: option.splits)
qed

lemma add_student_grades_dirs:
  "dirs (snd (add_student_grades w can sp grades page_num column_x)) = dirs w"
proof (induction sp arbitrary: w can)
  case Nil
  then show ?case by simp
next
  case (Cons e rest)
  then show ?case
    by (simp only: add_student_grades_step)
       (auto simp: logmsg_def split: option.splits)
qed

lemma add_student_grades_arial:
  "arial_registered (snd (add_student_grades w can sp grades page_num column_x))
     = arial_registered w"
proof (induction sp arbitrary: w can)
  case Nil
  then show ?case by simp
next
  case (Cons e rest)
  then show ?case
    by (simp only: add_student_grades_step)
       (auto split: option.splits)
qed

lemma build_overlay_Some:
  assumes "fst (build_overlay w total_students absent_count info sp grades page_num column_x) = Some c"
  shows "c = overlay_marks total_students absent_count info sp grades column_x page_num"
proof -
  have ar: "arial_registered w"
    using assms by (auto simp: build_overlay_def split: if_splits)
  show ?thesis
  proof (cases "page_num = 0")
    case True
    then show ?thesis
      using assms ar
        add_student_grades_Some [of w "[SetFont ''arial'' 9] @ header_marks total_students absent_count info"
          sp grades page_num column_x c]
      by (simp add: build_overlay_def overlay_marks_def add_header_info_def header_marks_def)
  next
    case False
    then show ?thesis
      using assms ar
        add_student_grades_Some [of w "[SetFont ''arial'' 9]" sp grades page_num column_x c]
      by (simp add: build_overlay_def overlay_marks_def)
  qed
qed

lemma build_overlay_dirs:
  "dirs (snd (build_overlay w total_students absent_count info sp grades page_num column_x)) = dirs w"
  by (simp add: build_overlay_def Let_def add_student_grades_dirs)

lemma build_overlay_arial:
  "arial_registered
     (snd (build_overlay w total_students absent_count info sp grades page_num column_x))
     = arial_registered w"
  by (simp add: build_overlay_def Let_def add_student_grades_arial)

lemma process_pages_Some:
  "process_pages w writer n pages total_students absent_count info sp grades column_x = (Some out, w')
   \<Longrightarrow> out = writer @ map (\<lambda>(i, pg). merge_overlay pg
                 (overlay_marks total_students absent_count info sp grades column_x i))
               (zip [n..<n + length pages] pages)
       \<and> dirs w' = dirs w"
proof (induction pages arbitrary: w writer n)
  case Nil
  then show ?case by simp
next
  case (Cons pg rest)
  obtain r w1 where b: "build_overlay w total_students absent_count info sp grades n column_x = (r, w1)"
    by (metis surj_pair)
  have d1: "dirs w1 = dirs w"
    using build_overlay_dirs [of w total_students absent_count info sp grades n column_x] b by simp
  show ?case
  proof (cases r)
    case None
    then show ?thesis using Cons.prems b by simp
  next
    case (Some can)
    have c: "can = overlay_marks total_students absent_count info sp grades column_x n"
      using build_overlay_Some [of w total_students absent_count info sp grades n column_x can] b Some
      by simp
    have "[n..<n + length (pg # rest)] = n # [Suc n..<Suc n + length rest]"
      by (simp add: upt_conv_Cons del: upt_Suc)
    then have z: "zip [n..<n + length (pg # rest)] (pg # rest)
        = (n, pg) # zip [Suc n..<Suc n + length rest] rest"
      by (simp only: zip_Cons_Cons)
    show ?thesis
    proof (cases "merge_raises pg")
      case True
      then have "process_pages (logmsg w1 ERROR ''error creating new page'' [str_nat (n + 1)])
          (writer @ [pg]) (Suc n) rest total_students absent_count info sp grades column_x
          = (Some out, w')"
        using Cons.prems b Some by simp
      from Cons.IH [OF this] show ?thesis
        using True d1 unfolding z by (simp add: merge_overlay_def logmsg_def)
    next
      case False
      then have "process_pages w1
          (writer @ [if 0 < overlay_pages can then pg\<lparr>marks := marks pg @ can\<rparr> else pg])
          (Suc n) rest total_students absent_count info sp grades column_x = (Some out, w')"
        using Cons.prems b Some by simp
      from Cons.IH [OF this] show ?thesis
        using False d1 c unfolding z by (simp add: merge_overlay_def)
    qed
  qed
qed

lemma process_pages_dirs:
  "dirs (snd (process_pages w writer n pages total_students absent_count info sp grades column_x))
     = dirs w"
proof (induction pages arbitrary: w writer n)
  case Nil
  then show ?case by simp
next
  case (Cons pg rest)
  obtain r w1 where b: "build_overlay w total_students absent_count info sp grades n column_x = (r, w1)"
    by (metis surj_pair)
  have d1: "dirs w1 = dirs w"
    using build_overlay_dirs [of w total_students absent_count info sp grades n column_x] b by simp
  show ?case
    using b d1 Cons.IH by (cases r) (simp_all add: logmsg_def)
qed

lemma read_file_dirs: "dirs w' = dirs w \<Longrightarrow> read_file w' p = read_file w p"
  by (simp add: read_file_def)

lemma find_grade_column_dirs: "dirs (snd (find_grade_column w p)) = dirs w"
  by (simp add: find_grade_column_def logmsg_def split: option.splits file_data.splits)

lemma extract_student_positions_dirs: "dirs (snd (extract_student_positions w p)) = dirs w"
  by (simp add: extract_student_positions_def logmsg_def Let_def split: option.splits file_data.splits)

lemma find_grade_column_env:
  "unidata (snd (find_grade_column w p)) = unidata w"
  "arial_registered (snd (find_grade_column w p)) = arial_registered w"
  by (simp_all add: find_grade_column_def split: option.splits file_data.splits)

lemma extract_student_positions_env:
  "unidata (snd (extract_student_positions w p)) = unidata w"
  "arial_registered (snd (extract_student_positions w p)) = arial_registered w"
  by (simp_all add: extract_student_positions_def Let_def split: option.splits file_data.splits)

lemma find_grade_column_indep:
  "dirs w' = dirs w \<Longrightarrow> fst (find_grade_column w' p) = fst (find_grade_column w p)"
  by (simp add: find_grade_column_def read_file_def split: option.splits file_data.splits)

lemma extract_student_positions_indep:
  "dirs w' = dirs w \<Longrightarrow> unidata w' = unidata w \<Longrightarrow>
   fst (extract_student_positions w' p) = fst (extract_student_positions w p)"
  by (simp add: extract_student_positions_def read_file_def Let_def split: option.splits file_data.splits)

lemma absent_students_eq:
  "length (filter (\<lambda>(ma_sv, pos). case map_of grades ma_sv of Some score \<Rightarrow> isna score | None \<Rightarrow> False) sp)
     = absent_students grades sp"
  by (simp add: absent_students_def case_prod_unfold)

lemma add_grade_to_pdf_success:
  assumes "add_grade_to_pdf w input_pdf output_pdf grades info = (True, w')"
  shows "\<exists>pages column_x column_top column_bottom.
     read_file w input_pdf = Some (PdfFile pages)
     \<and> fst (find_grade_column w input_pdf) = Some (column_x, column_top, column_bottom)
     \<and> fst (extract_student_positions w input_pdf) \<noteq> []
     \<and> dirs w' = (dirs w)(fst output_pdf :=
          AList.update (snd output_pdf)
            (PdfFile (map (\<lambda>(i, pg). merge_overlay pg
               (overlay_marks (length (fst (extract_student_positions w input_pdf)))
                  (absent_students grades (fst (extract_student_positions w input_pdf))) info
                  (fst (extract_student_positions w input_pdf)) grades column_x i))
               (zip [0..<length pages] pages)))
            (dirs w (fst output_pdf)))"
proof -
  have ex: "path_exists w input_pdf"
    using assms by (auto simp: add_grade_to_pdf_def split: if_splits)
  obtain pages where rf: "read_file w input_pdf = Some (PdfFile pages)"
    using assms ex
    by (auto simp: add_grade_to_pdf_def split: if_splits option.splits file_data.splits)
  obtain g w1 where fg: "find_grade_column w input_pdf = (g, w1)"
    by (metis surj_pair)
  have d1: "dirs w1 = dirs w" using find_grade_column_dirs [of w input_pdf] fg by simp
  have u1: "unidata w1 = unidata w" using find_grade_column_env(1) [of w input_pdf] fg by simp
  obtain sp w2 where es: "extract_student_positions w1 input_pdf = (sp, w2)"
    by (metis surj_pair)
  have d2: "dirs w2 = dirs w" using extract_student_positions_dirs [of w1 input_pdf] es d1 by simp
  have sp: "sp = fst (extract_student_positions w input_pdf)"
    using extract_student_positions_indep [OF d1 u1, of input_pdf] es by simp
  obtain column_x column_top column_bottom where g: "g = Some (column_x, column_top, column_bottom)"
    using assms ex rf fg
    by (cases g) (auto simp: add_grade_to_pdf_def)
  have ne: "sp \<noteq> []"
    using assms ex rf fg g es
    by (auto simp: add_grade_to_pdf_def split: if_splits)
  define w3 where "w3 = logmsg w2 INFO ''total and absent students''
      [str_nat (length sp), str_nat (absent_students grades sp)]"
  define missing where "missing = length (filter (\<lambda>(ma_sv, pos). map_of grades ma_sv = None) sp)"
  define w4 where "w4 = (if 0 < missing
      then logmsg w3 WARNING ''student ids not in excel file'' [str_nat missing] else w3)"
  have d4: "dirs w4 = dirs w" using d2 by (simp add: w4_def w3_def logmsg_def)
  obtain r w5 where pp: "process_pages w4 [] 0 pages (length sp) (absent_students grades sp) info
      sp grades column_x = (r, w5)"
    by (metis surj_pair)
  have unf: "add_grade_to_pdf w input_pdf output_pdf grades info =
      (case r of None \<Rightarrow> (False, logmsg w5 ERROR ''error adding grades to pdf'' [path_str input_pdf])
       | Some writer \<Rightarrow> (True, logmsg (write_file w5 output_pdf (PdfFile writer)) INFO
                                ''created file'' [path_str output_pdf]))"
    using ex rf fg g es ne pp
    by (auto simp: add_grade_to_pdf_def Let_def absent_students_eq w3_def [symmetric]
        missing_def [symmetric] w4_def)
  obtain writer where r: "r = Some writer"
    using assms unf by (cases r) auto
  have w': "w' = logmsg (write_file w5 output_pdf (PdfFile writer)) INFO ''created file''
      [path_str output_pdf]"
    using assms unf r by simp
  have res: "writer = [] @ map (\<lambda>(i, pg). merge_overlay pg
                 (overlay_marks (length sp) (absent_students grades sp) info sp grades column_x i))
               (zip [0..<0 + length pages] pages) \<and> dirs w5 = dirs w4"
    using process_pages_Some [of w4 "[]" 0 pages "length sp" "absent_students grades sp" info sp
        grades column_x writer w5] pp r
    by simp
  have "dirs w' = (dirs w)(fst output_pdf :=
          AList.update (snd output_pdf) (PdfFile writer) (dirs w (fst output_pdf)))"
    using w' res d4 by (simp add: logmsg_def write_file_def)
  then show ?thesis
    using rf fg g ne res unfolding sp [symmetric] by simp
qed

lemma build_overlay_total:
  "arial_registered w \<Longrightarrow> scores_comparable grades page_num sp \<Longrightarrow>
   fst (build_overlay w total_students absent_count info sp grades page_num column_x) \<noteq> None"
  by (simp add: build_overlay_def Let_def add_student_grades_total)

lemma process_pages_total:
  "arial_registered w \<Longrightarrow> \<forall>i<length pages. scores_comparable grades (n + i) sp \<Longrightarrow>
   fst (process_pages w writer n pages total_students absent_count info sp grades column_x) \<noteq> None"
proof (induction pages arbitrary: w writer n)
  case Nil
  then show ?case by simp
next
  case (Cons pg rest)
  obtain r w1 where b: "build_overlay w total_students absent_count info sp grades n column_x = (r, w1)"
    by (metis surj_pair)
  have a1: "arial_registered w1"
    using build_overlay_arial [of w total_students absent_count info sp grades n column_x] b
      Cons.prems(1) by simp
  have "scores_comparable grades n sp" using Cons.prems(2) by force
  then obtain can where r: "r = Some can"
    using build_overlay_total [of w grades n sp total_students absent_count info column_x] b
      Cons.prems(1) by auto
  have rest: "\<forall>i<length rest. scores_comparable grades (Suc n + i) sp"
  proof (intro allI impI)
    fix i assume "i < length rest"
    then have "Suc i < length (pg # rest)" by simp
    then have "scores_comparable grades (n + Suc i) sp" using Cons.prems(2) by blast
    then show "scores_comparable grades (Suc n + i) sp" by simp
  qed
  have l1: "arial_registered (logmsg w1 ERROR ''error creating new page'' [str_nat (n + 1)])"
    using a1 by simp
  show ?case
    using b r Cons.IH [OF a1 rest] Cons.IH [OF l1 rest] by simp
qed

lemma add_grade_to_pdf_succeeds:
  assumes rf: "read_file w input_pdf = Some (PdfFile pages)"
    and fgc: "fst (find_grade_column w input_pdf) \<noteq> None"
    and nes: "fst (extract_student_positions w input_pdf) \<noteq> []"
    and sc: "\<forall>i<length pages. scores_comparable grades i (fst (extract_student_positions w input_pdf))"
    and ar: "arial_registered w"
  shows "fst (add_grade_to_pdf w input_pdf output_pdf grades info) = True"
proof -
  have ex: "path_exists w input_pdf" using rf by (simp add: path_exists_def)
  obtain g w1 where fg: "find_grade_column w input_pdf = (g, w1)"
    by (metis surj_pair)
  have d1: "dirs w1 = dirs w" using find_grade_column_dirs [of w input_pdf] fg by simp
  have u1: "unidata w1 = unidata w" using find_grade_column_env(1) [of w input_pdf] fg by simp
  have a1: "arial_registered w1" using find_grade_column_env(2) [of w input_pdf] fg ar by simp
  obtain sp w2 where es: "extract_student_positions w1 input_pdf = (sp, w2)"
    by (metis surj_pair)
  have a2: "arial_registered w2" using extract_student_positions_env(2) [of w1 input_pdf] es a1 by simp
  have sp: "sp = fst (extract_student_positions w input_pdf)"
    using extract_student_positions_indep [OF d1 u1, of input_pdf] es by simp
  obtain column_x column_top column_bottom where g: "g = Some (column_x, column_top, column_bottom)"
    using fgc fg by (cases g) auto
  have ne: "sp \<noteq> []" using nes sp by simp
  define w3 where "w3 = logmsg w2 INFO ''total and absent students''
      [str_nat (length sp), str_nat (absent_students grades sp)]"
  define missing where "missing = length (filter (\<lambda>(ma_sv, pos). map_of grades ma_sv = None) sp)"
  define w4 where "w4 = (if 0 < missing
      then logmsg w3 WARNING ''student ids not in excel file'' [str_nat missing] else w3)"
  obtain r w5 where pp: "process_pages w4 [] 0 pages (length sp) (absent_students grades sp) info
      sp grades column_x = (r, w5)"
    by (metis surj_pair)
  have unf: "add_grade_to_pdf w input_pdf output_pdf grades info =
      (case r of None \<Rightarrow> (False, logmsg w5 ERROR ''error adding grades to pdf'' [path_str input_pdf])
       | Some writer \<Rightarrow> (True, logmsg (write_file w5 output_pdf (PdfFile writer)) INFO
                                ''created file'' [path_str output_pdf]))"
    using ex rf fg g es ne pp
    by (auto simp: add_grade_to_pdf_def Let_def absent_students_eq w3_def [symmetric]
        missing_def [symmetric] w4_def)
  have a4: "arial_registered w4" using a2 by (simp add: w4_def w3_def)
  have "\<forall>i<length pages. scores_comparable grades (0 + i) sp" using sc sp by simp
  from process_pages_total [OF a4 this, of "[]" "length sp" "absent_students grades sp" info column_x]
  obtain writer where "r = Some writer" using pp by auto
  then show ?thesis using unf by simp
qed

lemma strip_ids: "py_strip ''100000001'' = ''100000001''" "py_strip ''100000002'' = ''100000002''"
  "py_strip ''100000003'' = ''100000003''" "py_strip padded_id = ''100000002''"
  "py_strip ''1'' = ''1''" "py_strip ''1 '' = ''1''"
  by (simp_all add: padded_id_def py_strip_def lstrip_chars.simps whitespace_chars_def)

lemma sheet_extract: "fst (extract_student_positions sheet_world (''d'', ''s_qt.pdf'')) = sheet_positions"
  by (simp add: extract_student_positions_def read_file_def sheet_world_def sheet_page1_def
      sheet_page2_def sheet_positions_def sample_ids sample_no_id)

lemma sheet_column: "fst (find_grade_column sheet_world (''d'', ''s_qt.pdf'')) = Some (100, 40, 50)"
  by (simp add: find_grade_column_def read_file_def sheet_world_def sheet_page1_def
      sheet_page2_def col_diem_def)

lemma sheet_read: "read_file sheet_world (''d'', ''s_qt.pdf'') = Some (PdfFile [sheet_page1, sheet_page2])"
  by (simp add: read_file_def sheet_world_def)

lemma sheet_comparable: "scores_comparable sheet_grades i sheet_positions"
  by (simp add: scores_comparable_def sheet_grades_def sheet_positions_def strip_ids)

lemma sheet_add: "fst (add_grade_to_pdf sheet_world (''d'', ''s_qt.pdf'') (''d'', ''output_s_qt.pdf'') sheet_grades sample_info) = True"
proof (rule add_grade_to_pdf_succeeds [OF sheet_read])
  show "fst (find_grade_column sheet_world (''d'', ''s_qt.pdf'')) \<noteq> None"
    by (simp add: sheet_column)
  show "fst (extract_student_positions sheet_world (''d'', ''s_qt.pdf'')) \<noteq> []"
    by (simp add: sheet_extract sheet_positions_def)
  show "\<forall>i<length [sheet_page1, sheet_page2].
     scores_comparable sheet_grades i (fst (extract_student_positions sheet_world (''d'', ''s_qt.pdf'')))"
    by (simp add: sheet_extract sheet_comparable)
  show "arial_registered sheet_world"
    by (simp add: sheet_world_def)
qed

lemma sheet_success:
  "add_grade_to_pdf sheet_world (''d'', ''s_qt.pdf'') (''d'', ''output_s_qt.pdf'') sheet_grades sample_info
     = (True, snd (add_grade_to_pdf sheet_world (''d'', ''s_qt.pdf'') (''d'', ''output_s_qt.pdf'')
         sheet_grades sample_info))"
  using sheet_add by (simp add: prod_eq_iff)

lemma read_file_written:
  "dirs w' = (dirs w)(fst p := AList.update (snd p) f (dirs w (fst p))) \<Longrightarrow>
   read_file w' p = Some f"
  by (simp add: read_file_def update_conv')

lemma nth_merged:
  assumes "i < length pages"
  shows "map (\<lambda>(i, pg). merge_overlay pg (ov i)) (zip [0..<length pages] pages) ! i
     = merge_overlay (pages ! i) (ov i)"
  using assms by simp

lemma sheet_overlay2:
  "fst (build_overlay sheet_world 3 1 sample_info sheet_positions sheet_grades 1 100)
     = Some [SetFont ''arial'' 9, DrawString 88 732 (number_words ! 7), SetFillColorBlack,
             Circle (100 + 44.5 + 7 * 16.7) 735 (4 * 2.8346 / 2)]"
  by (simp add: build_overlay_def sheet_world_def sheet_positions_def sheet_grades_def strip_ids
      convert_to_text_def draw_score_circles_def py_int_def py_round1_def round_half_even_def
      Let_def)

lemma sheet_absent: "absent_students sheet_grades sheet_positions = 1"
  by (simp add: absent_students_def sheet_grades_def sheet_positions_def)

lemma sheet_marks1:
  "concat (map (student_marks sheet_grades 100) (filter (on_page 0) sheet_positions))
     = [DrawString 88 732 (number_words ! 8 @ suffix_ruoi), SetFillColorBlack,
        Circle (100 + 44.5 + 8 * 16.7) 735 (4 * 2.8346 / 2), Circle 329 735 (4 * 2.8346 / 2),
        DrawString 88 712 word_vang]"
  by (simp add: sheet_positions_def sheet_grades_def on_page_def student_marks_def strip_ids
      convert_to_text_def py_int_def py_round1_def round_half_even_def frac_def Let_def)

lemma header_world_lookups:
  "fst (find_grade_column header_world (''d'', ''h.pdf'')) = Some (100, 40, 50)"
  "fst (extract_student_positions header_world (''d'', ''h.pdf'')) = []"
  by (simp_all add: find_grade_column_def extract_student_positions_def read_file_def
      header_world_def sample_no_id)
     (simp add: col_diem_def)

lemma dup_world_lookups:
  "fst (find_grade_column dup_world (''d'', ''a.pdf'')) = None"
  "fst (extract_student_positions dup_world (''d'', ''a.pdf'')) = [(''123456789'', (50, 200, 2))]"
  by (simp_all add: find_grade_column_def extract_student_positions_def read_file_def
      dup_world_def dup_page1_def dup_page2_def col_diem_def sample_ids)

lemma add_grade_to_pdf_missing_anchor:
  assumes "fst (find_grade_column w input_pdf) = None
           \<or> fst (extract_student_positions w input_pdf) = []"
  shows "fst (add_grade_to_pdf w input_pdf output_pdf grades info) = False
     \<and> dirs (snd (add_grade_to_pdf w input_pdf output_pdf grades info)) = dirs w
     \<and> (\<exists>key args. last (log (snd (add_grade_to_pdf w input_pdf output_pdf grades info)))
            = Log ERROR key args)"
proof (cases "read_file w input_pdf")
  case None
  then show ?thesis by (simp add: add_grade_to_pdf_def path_exists_def logmsg_def)
next
  case (Some f)
  show ?thesis
  proof (cases f)
    case (PdfFile pages)
    obtain g w1 where fg: "find_grade_column w input_pdf = (g, w1)"
      by (metis surj_pair)
    have d1: "dirs w1 = dirs w" using find_grade_column_dirs [of w input_pdf] fg by simp
    have u1: "unidata w1 = unidata w" using find_grade_column_env(1) [of w input_pdf] fg by simp
    obtain sp w2 where es: "extract_student_positions w1 input_pdf = (sp, w2)"
      by (metis surj_pair)
    have d2: "dirs w2 = dirs w" using extract_student_positions_dirs [of w1 input_pdf] es d1 by simp
    have sp: "sp = fst (extract_student_positions w input_pdf)"
      using extract_student_positions_indep [OF d1 u1, of input_pdf] es by simp
    show ?thesis
    proof (cases g)
      case None
      then show ?thesis using Some PdfFile fg d1
        by (simp add: add_grade_to_pdf_def path_exists_def logmsg_def)
    next
      case (Some c)
      then have "sp = []" using assms fg sp by simp
      then show ?thesis using \<open>read_file w input_pdf = Some f\<close> PdfFile fg Some es d2
        by (cases c) (simp add: add_grade_to_pdf_def path_exists_def logmsg_def)
    qed
  next
    case (XlsxFile t)
    then show ?thesis using Some by (simp add: add_grade_to_pdf_def path_exists_def logmsg_def)
  next
    case OtherFile
    then show ?thesis using Some by (simp add: add_grade_to_pdf_def path_exists_def logmsg_def)
  qed
qed

subsection \<open>C1: where the grade text and the circles are drawn\<close>

text \<open>
  Claim C1 says that the grade text is drawn for every student positioned on the page.
  The program draws it inside \<^verbatim>\<open>if ma_sv_pdf in grades\<close>: for a student of the page whose
  ID is not in the grade table it only writes a debug message, and the canvas stays as it
  was.
\<close>

theorem add_student_grades_unlisted_student:
  "on_page 0 (''100000001'', (50, 100, 1))
   \<and> fst (add_student_grades sheet_world [] [(''100000001'', (50, 100, 1))] [] 0 100) = Some []"
  by (simp add: on_page_def)

text \<open>
  Claim C1, amended. On a page whose looked-up scores are missing or numbers, the canvas
  gets, for each student of the page in turn, the marks of that student: nothing when the
  ID is not in the grade table; otherwise the grade text at \<open>x = column_x - 12\<close>,
  \<open>y = 832 - student_top\<close>, and, whenever the score is a number in \<open>[0, 10]\<close>, a filled
  circle of radius \<open>(4 * 2.8346) / 2\<close> at \<open>x = column_x + 44.5 + floor(score) * 16.7\<close>,
  \<open>y = (832 - student_top) + 3\<close>, followed by a second circle of the same radius at
  \<open>x = column_x + 229\<close> on the same row if and only if the fractional part of the score
  rounds to \<open>0.5\<close> at one decimal.
\<close>

theorem add_student_grades_marks:
  "(scores_comparable grades page_num sp \<longrightarrow>
      fst (add_student_grades w can sp grades page_num column_x)
        = Some (can @ concat (map (student_marks grades column_x) (filter (on_page page_num) sp))))
   \<and> (map_of grades (py_strip ma_sv) = None \<longrightarrow>
        student_marks grades column_x (ma_sv, x0, student_top, pn) = [])
   \<and> (map_of grades (py_strip ma_sv) = Some score \<and> num_of score = None \<longrightarrow>
        student_marks grades column_x (ma_sv, x0, student_top, pn)
          = [DrawString (column_x - 12) (832 - student_top) (convert_to_text score)])
   \<and> (map_of grades (py_strip ma_sv) = Some score \<and> num_of score = Some r
        \<and> \<not> (0 \<le> r \<and> r \<le> 10) \<longrightarrow>
        student_marks grades column_x (ma_sv, x0, student_top, pn)
          = [DrawString (column_x - 12) (832 - student_top) (convert_to_text score)])
   \<and> (map_of grades (py_strip ma_sv) = Some score \<and> num_of score = Some r
        \<and> 0 \<le> r \<and> r \<le> 10 \<and> py_round1 (frac r) = 1 / 2 \<longrightarrow>
        student_marks grades column_x (ma_sv, x0, student_top, pn)
          = [DrawString (column_x - 12) (832 - student_top) (convert_to_text score),
             SetFillColorBlack,
             Circle (column_x + 44.5 + of_int \<lfloor>r\<rfloor> * 16.7) (832 - student_top + 3)
               (4 * 2.8346 / 2),
             Circle (column_x + 229) (832 - student_top + 3) (4 * 2.8346 / 2)])
   \<and> (map_of grades (py_strip ma_sv) = Some score \<and> num_of score = Some r
        \<and> 0 \<le> r \<and> r \<le> 10 \<and> py_round1 (frac r) \<noteq> 1 / 2 \<longrightarrow>
        student_marks grades column_x (ma_sv, x0, student_top, pn)
          = [DrawString (column_x - 12) (832 - student_top) (convert_to_text score),
             SetFillColorBlack,
             Circle (column_x + 44.5 + of_int \<lfloor>r\<rfloor> * 16.7) (832 - student_top + 3)
               (4 * 2.8346 / 2)])"
proof -
  have a: "scores_comparable grades page_num sp \<longrightarrow>
      fst (add_student_grades w can sp grades page_num column_x)
        = Some (can @ concat (map (student_marks grades column_x) (filter (on_page page_num) sp)))"
  proof
    assume h: "scores_comparable grades page_num sp"
    obtain c where c: "fst (add_student_grades w can sp grades page_num column_x) = Some c"
      using add_student_grades_total [OF h, of w can column_x] by auto
    show "fst (add_student_grades w can sp grades page_num column_x)
        = Some (can @ concat (map (student_marks grades column_x) (filter (on_page page_num) sp)))"
      using add_student_grades_Some [OF c] c by simp
  qed
  have b: "map_of grades (py_strip ma_sv) = None \<longrightarrow>
        student_marks grades column_x (ma_sv, x0, student_top, pn) = []"
    by (simp add: student_marks_def)
  show ?thesis
    using a b by (auto simp: student_marks_def Let_def)
qed

theorem add_student_grades_marks_witness:
  "scores_comparable sheet_grades 0 sheet_positions
   \<and> fst (add_student_grades sheet_world [] sheet_positions sheet_grades 0 100)
      = Some [DrawString 88 732 (number_words ! 8 @ suffix_ruoi), SetFillColorBlack,
          Circle (100 + 44.5 + 8 * 16.7) 735 (4 * 2.8346 / 2), Circle 329 735 (4 * 2.8346 / 2),
          DrawString 88 712 word_vang]
   \<and> student_marks sheet_grades 100 (''100000009'', 50, 100, 1) = []
   \<and> student_marks sheet_grades 100 (''100000002'', 50, 120, 1) = [DrawString 88 712 word_vang]
   \<and> student_marks [(''100000001'', PInt 11)] 100 (''100000001'', 50, 100, 1)
       = [DrawString 88 732 word_khong_hop_le]
   \<and> student_marks sheet_grades 100 (''100000001'', 50, 100, 1)
       = [DrawString 88 732 (number_words ! 8 @ suffix_ruoi), SetFillColorBlack,
          Circle (100 + 44.5 + 8 * 16.7) 735 (4 * 2.8346 / 2), Circle 329 735 (4 * 2.8346 / 2)]
   \<and> student_marks sheet_grades 100 (''100000003'', 50, 100, 2)
       = [DrawString 88 732 (number_words ! 7), SetFillColorBlack,
          Circle (100 + 44.5 + 7 * 16.7) 735 (4 * 2.8346 / 2)]"
proof -
  have sc: "scores_comparable sheet_grades 0 sheet_positions"
    by (simp add: scores_comparable_def sheet_grades_def sheet_positions_def on_page_def strip_ids)
  have s9: "py_strip ''100000009'' = ''100000009''"
    by (simp add: py_strip_def lstrip_chars.simps whitespace_chars_def)
  have ev: "concat (map (student_marks sheet_grades 100) (filter (on_page 0) sheet_positions))
     = [DrawString 88 732 (number_words ! 8 @ suffix_ruoi), SetFillColorBlack,
          Circle (100 + 44.5 + 8 * 16.7) 735 (4 * 2.8346 / 2), Circle 329 735 (4 * 2.8346 / 2),
          DrawString 88 712 word_vang]"
    by (simp add: sheet_positions_def sheet_grades_def on_page_def student_marks_def strip_ids
        convert_to_text_def py_int_def py_round1_def round_half_even_def frac_def Let_def)
  show ?thesis
    using sc ev
      add_student_grades_marks [where grades = "sheet_grades" and page_num = 0
        and sp = sheet_positions and w = sheet_world and can = "[]" and column_x = 100
        and ma_sv = "''100000009''" and score = "PNaN" and r = "0" and ?x0.0 = 50
        and student_top = 100 and pn = 1]
      add_student_grades_marks [where grades = "sheet_grades" and page_num = 0
        and sp = sheet_positions and w = sheet_world and can = "[]" and column_x = 100
        and ma_sv = "''100000002''" and score = "PNaN" and r = "0" and ?x0.0 = 50
        and student_top = 120 and pn = 1]
      add_student_grades_marks [where grades = "[(''100000001'', PInt 11)]" and page_num = 0
        and sp = sheet_positions and w = sheet_world and can = "[]" and column_x = 100
        and ma_sv = "''100000001''" and score = "PInt 11" and r = "11" and ?x0.0 = 50
        and student_top = 100 and pn = 1]
      add_student_grades_marks [where grades = "sheet_grades" and page_num = 0
        and sp = sheet_positions and w = sheet_world and can = "[]" and column_x = 100
        and ma_sv = "''100000001''" and score = "PFloat 8.5" and r = "8.5" and ?x0.0 = 50
        and student_top = 100 and pn = 1]
      add_student_grades_marks [where grades = "sheet_grades" and page_num = 0
        and sp = sheet_positions and w = sheet_world and can = "[]" and column_x = 100
        and ma_sv = "''100000003''" and score = "PInt 7" and r = "7" and ?x0.0 = 50
        and student_top = 100 and pn = 2]
    by (simp add: sheet_grades_def strip_ids s9 convert_to_text_def py_int_def py_round1_def
        round_half_even_def frac_def Let_def)
qed

subsection \<open>C4: the add-grade operation needs both lookups\<close>

text \<open>
  Claim C4. \<open>add_grade_to_pdf\<close> returns \<open>False\<close>, logs an error and writes no file
  whenever the grade column is not found or no student position is found. Each of the two
  lookups leaves the files as they are, and each can succeed on a document on which the
  other finds nothing.
\<close>

theorem add_grade_to_pdf_needs_both_lookups:
  "(fst (find_grade_column w input_pdf) = None
      \<or> fst (extract_student_positions w input_pdf) = [] \<longrightarrow>
      fst (add_grade_to_pdf w input_pdf output_pdf grades info) = False
      \<and> dirs (snd (add_grade_to_pdf w input_pdf output_pdf grades info)) = dirs w
      \<and> (\<exists>key args. last (log (snd (add_grade_to_pdf w input_pdf output_pdf grades info)))
            = Log ERROR key args))
   \<and> dirs (snd (find_grade_column w input_pdf)) = dirs w
   \<and> dirs (snd (extract_student_positions w input_pdf)) = dirs w
   \<and> (\<exists>w1 p1. fst (find_grade_column w1 p1) \<noteq> None \<and> fst (extract_student_positions w1 p1) = [])
   \<and> (\<exists>w2 p2. fst (find_grade_column w2 p2) = None \<and> fst (extract_student_positions w2 p2) \<noteq> [])"
proof -
  have a: "\<exists>w1 p1. fst (find_grade_column w1 p1) \<noteq> None \<and> fst (extract_student_positions w1 p1) = []"
    using header_world_lookups by (intro exI [of _ header_world] exI [of _ "(''d'', ''h.pdf'')"]) simp
  have b: "\<exists>w2 p2. fst (find_grade_column w2 p2) = None \<and> fst (extract_student_positions w2 p2) \<noteq> []"
    using dup_world_lookups by (intro exI [of _ dup_world] exI [of _ "(''d'', ''a.pdf'')"]) simp
  show ?thesis
    using a b add_grade_to_pdf_missing_anchor [of w input_pdf output_pdf grades info]
      find_grade_column_dirs [of w input_pdf] extract_student_positions_dirs [of w input_pdf]
    by blast
qed

theorem add_grade_to_pdf_needs_both_lookups_witness:
  "fst (find_grade_column dup_world (''d'', ''a.pdf'')) = None
   \<and> fst (extract_student_positions dup_world (''d'', ''a.pdf'')) \<noteq> []
   \<and> fst (add_grade_to_pdf dup_world (''d'', ''a.pdf'') (''d'', ''output_a.pdf'') [] sample_info) = False
   \<and> dirs (snd (add_grade_to_pdf dup_world (''d'', ''a.pdf'') (''d'', ''output_a.pdf'') [] sample_info))
       = dirs dup_world
   \<and> fst (find_grade_column header_world (''d'', ''h.pdf'')) \<noteq> None
   \<and> fst (extract_student_positions header_world (''d'', ''h.pdf'')) = []
   \<and> fst (add_grade_to_pdf header_world (''d'', ''h.pdf'') (''d'', ''output_h.pdf'') [] sample_info) = False
   \<and> dirs (snd (add_grade_to_pdf header_world (''d'', ''h.pdf'') (''d'', ''output_h.pdf'') [] sample_info))
       = dirs header_world"
  using dup_world_lookups header_world_lookups
    add_grade_to_pdf_needs_both_lookups [of dup_world "(''d'', ''a.pdf'')" "(''d'', ''output_a.pdf'')" "[]" sample_info]
    add_grade_to_pdf_needs_both_lookups [of header_world "(''d'', ''h.pdf'')" "(''d'', ''output_h.pdf'')" "[]" sample_info]
  by simp

subsection \<open>C8: the header is drawn on the first page only\<close>

text \<open>
  Every mark of a student is a string or a circle, so the overlay of a page has a page of
  its own exactly when it is the first one, which has the header, or has a student mark.
\<close>

lemma student_marks_content: "d \<in> set (student_marks grades column_x e) \<Longrightarrow> draws_content d"
  by (auto simp: student_marks_def Let_def split: option.splits if_splits)

lemma overlay_pages_overlay_marks:
  "overlay_pages (overlay_marks total_students absent_count info sp grades column_x page_num)
     = (if page_num = 0
           \<or> concat (map (student_marks grades column_x) (filter (on_page page_num) sp)) \<noteq> []
        then 1 else 0)"
proof -
  define ms where "ms = concat (map (student_marks grades column_x) (filter (on_page page_num) sp))"
  have "\<forall>d \<in> set ms. draws_content d"
    unfolding ms_def using student_marks_content by auto
  then have "list_ex draws_content ms \<longleftrightarrow> ms \<noteq> []"
    by (cases ms) (auto simp: list_ex_iff)
  then show ?thesis
    unfolding ms_def [symmetric]
    by (simp add: overlay_pages_def overlay_marks_def header_marks_def ms_def [symmetric])
qed

text \<open>
  Claim C8. The overlay of page index 0 starts with the total, the absent count and the
  four names at their fixed coordinates; the overlay of every other page holds the marks
  of the students of that page and nothing else. In the output of a successful
  \<open>add_grade_to_pdf\<close> every page whose merge did not raise carries exactly these marks; a
  page other than the first that has no student mark gets no overlay and stays as it was.
\<close>

theorem header_on_first_page_only:
  "(fst (build_overlay w total_students absent_count info sp grades page_num column_x) = Some can
      \<longrightarrow> can = [SetFont ''arial'' 9]
            @ (if page_num = 0
               then [DrawString 125 93.5 (str_nat total_students),
                     DrawString 125 75 (str_nat absent_count),
                     DrawCentredString 380 52 (supervisor1 info),
                     DrawCentredString 380 15 (supervisor2 info),
                     DrawCentredString 505 52 (grader1 info),
                     DrawCentredString 505 15 (grader2 info)]
               else [])
            @ concat (map (student_marks grades column_x) (filter (on_page page_num) sp)))
   \<and> (add_grade_to_pdf w input_pdf output_pdf grades info = (True, w') \<longrightarrow>
        (\<exists>pages out column_x column_top column_bottom.
           read_file w input_pdf = Some (PdfFile pages)
           \<and> read_file w' output_pdf = Some (PdfFile out)
           \<and> fst (find_grade_column w input_pdf) = Some (column_x, column_top, column_bottom)
           \<and> (\<forall>i<length pages. \<not> merge_raises (pages ! i) \<longrightarrow>
                 marks (out ! i) = marks (pages ! i)
                   @ (if i = 0
                         \<or> concat (map (student_marks grades column_x)
                              (filter (on_page i) (fst (extract_student_positions w input_pdf))))
                            \<noteq> []
                      then [SetFont ''arial'' 9]
                        @ (if i = 0
                           then header_marks (length (fst (extract_student_positions w input_pdf)))
                                  (absent_students grades (fst (extract_student_positions w input_pdf)))
                                  info
                           else [])
                        @ concat (map (student_marks grades column_x)
                            (filter (on_page i) (fst (extract_student_positions w input_pdf))))
                      else []))))"
proof -
  have a: "fst (build_overlay w total_students absent_count info sp grades page_num column_x) = Some can
      \<longrightarrow> can = [SetFont ''arial'' 9]
            @ (if page_num = 0
               then [DrawString 125 93.5 (str_nat total_students),
                     DrawString 125 75 (str_nat absent_count),
                     DrawCentredString 380 52 (supervisor1 info),
                     DrawCentredString 380 15 (supervisor2 info),
                     DrawCentredString 505 52 (grader1 info),
                     DrawCentredString 505 15 (grader2 info)]
               else [])
            @ concat (map (student_marks grades column_x) (filter (on_page page_num) sp))"
  proof
    assume "fst (build_overlay w total_students absent_count info sp grades page_num column_x) = Some can"
    from build_overlay_Some [OF this] show "can = [SetFont ''arial'' 9]
            @ (if page_num = 0
               then [DrawString 125 93.5 (str_nat total_students),
                     DrawString 125 75 (str_nat absent_count),
                     DrawCentredString 380 52 (supervisor1 info),
                     DrawCentredString 380 15 (supervisor2 info),
                     DrawCentredString 505 52 (grader1 info),
                     DrawCentredString 505 15 (grader2 info)]
               else [])
            @ concat (map (student_marks grades column_x) (filter (on_page page_num) sp))"
      by (simp add: overlay_marks_def header_marks_def)
  qed
  have b: "add_grade_to_pdf w input_pdf output_pdf grades info = (True, w') \<longrightarrow>
        (\<exists>pages out column_x column_top column_bottom.
           read_file w input_pdf = Some (PdfFile pages)
           \<and> read_file w' output_pdf = Some (PdfFile out)
           \<and> fst (find_grade_column w input_pdf) = Some (column_x, column_top, column_bottom)
           \<and> (\<forall>i<length pages. \<not> merge_raises (pages ! i) \<longrightarrow>
                 marks (out ! i) = marks (pages ! i)
                   @ (if i = 0
                         \<or> concat (map (student_marks grades column_x)
                              (filter (on_page i) (fst (extract_student_positions w input_pdf))))
                            \<noteq> []
                      then [SetFont ''arial'' 9]
                        @ (if i = 0
                           then header_marks (length (fst (extract_student_positions w input_pdf)))
                                  (absent_students grades (fst (extract_student_positions w input_pdf)))
                                  info
                           else [])
                        @ concat (map (student_marks grades column_x)
                            (filter (on_page i) (fst (extract_student_positions w input_pdf))))
                      else [])))"
  proof
    assume s: "add_grade_to_pdf w input_pdf output_pdf grades info = (True, w')"
    obtain pages cx ct cb where
      rf: "read_file w input_pdf = Some (PdfFile pages)" and
      fg: "fst (find_grade_column w input_pdf) = Some (cx, ct, cb)" and
      d: "dirs w' = (dirs w)(fst output_pdf :=
          AList.update (snd output_pdf)
            (PdfFile (map (\<lambda>(i, pg). merge_overlay pg
               (overlay_marks (length (fst (extract_student_positions w input_pdf)))
                  (absent_students grades (fst (extract_student_positions w input_pdf))) info
                  (fst (extract_student_positions w input_pdf)) grades cx i))
               (zip [0..<length pages] pages)))
            (dirs w (fst output_pdf)))"
      using add_grade_to_pdf_success [OF s] by blast
    define ov where "ov = overlay_marks (length (fst (extract_student_positions w input_pdf)))
                  (absent_students grades (fst (extract_student_positions w input_pdf))) info
                  (fst (extract_student_positions w input_pdf)) grades cx"
    define out where "out = map (\<lambda>(i, pg). merge_overlay pg (ov i)) (zip [0..<length pages] pages)"
    have ro: "read_file w' output_pdf = Some (PdfFile out)"
      using read_file_written [OF d] by (simp add: out_def ov_def)
    have each: "\<forall>i<length pages. \<not> merge_raises (pages ! i) \<longrightarrow>
                 marks (out ! i) = marks (pages ! i)
                   @ (if i = 0
                         \<or> concat (map (student_marks grades cx)
                              (filter (on_page i) (fst (extract_student_positions w input_pdf))))
                            \<noteq> []
                      then [SetFont ''arial'' 9]
                        @ (if i = 0
                           then header_marks (length (fst (extract_student_positions w input_pdf)))
                                  (absent_students grades (fst (extract_student_positions w input_pdf)))
                                  info
                           else [])
                        @ concat (map (student_marks grades cx)
                            (filter (on_page i) (fst (extract_student_positions w input_pdf))))
                      else [])"
    proof (intro allI impI)
      fix i assume i: "i < length pages" and m: "\<not> merge_raises (pages ! i)"
      define ms where "ms = concat (map (student_marks grades cx)
          (filter (on_page i) (fst (extract_student_positions w input_pdf))))"
      have o: "out ! i = merge_overlay (pages ! i) (ov i)"
        unfolding out_def using nth_merged [OF i] .
      have v: "ov i = [SetFont ''arial'' 9]
          @ (if i = 0
             then header_marks (length (fst (extract_student_positions w input_pdf)))
                    (absent_students grades (fst (extract_student_positions w input_pdf))) info
             else [])
          @ ms"
        by (simp add: ov_def overlay_marks_def ms_def)
      have n: "overlay_pages (ov i) = (if i = 0 \<or> ms \<noteq> [] then 1 else 0)"
        unfolding ov_def ms_def by (rule overlay_pages_overlay_marks)
      have "marks (out ! i) = marks (pages ! i)
          @ (if i = 0 \<or> ms \<noteq> [] then ov i else [])"
        using m o n by (simp add: merge_overlay_def)
      then show "marks (out ! i) = marks (pages ! i)
                   @ (if i = 0
                         \<or> concat (map (student_marks grades cx)
                              (filter (on_page i) (fst (extract_student_positions w input_pdf))))
                            \<noteq> []
                      then [SetFont ''arial'' 9]
                        @ (if i = 0
                           then header_marks (length (fst (extract_student_positions w input_pdf)))
                                  (absent_students grades (fst (extract_student_positions w input_pdf)))
                                  info
                           else [])
                        @ concat (map (student_marks grades cx)
                            (filter (on_page i) (fst (extract_student_positions w input_pdf))))
                      else [])"
        unfolding v ms_def by simp
    qed
    show "\<exists>pages out column_x column_top column_bottom.
           read_file w input_pdf = Some (PdfFile pages)
           \<and> read_file w' output_pdf = Some (PdfFile out)
           \<and> fst (find_grade_column w input_pdf) = Some (column_x, column_top, column_bottom)
           \<and> (\<forall>i<length pages. \<not> merge_raises (pages ! i) \<longrightarrow>
                 marks (out ! i) = marks (pages ! i)
                   @ (if i = 0
                         \<or> concat (map (student_marks grades column_x)
                              (filter (on_page i) (fst (extract_student_positions w input_pdf))))
                            \<noteq> []
                      then [SetFont ''arial'' 9]
                        @ (if i = 0
                           then header_marks (length (fst (extract_student_positions w input_pdf)))
                                  (absent_students grades (fst (extract_student_positions w input_pdf)))
                                  info
                           else [])
                        @ concat (map (student_marks grades column_x)
                            (filter (on_page i) (fst (extract_student_positions w input_pdf))))
                      else []))"
      using rf ro fg each by blast
  qed
  show ?thesis using a b by blast
qed

theorem header_on_first_page_only_witness:
  "fst (build_overlay sheet_world 3 1 sample_info sheet_positions sheet_grades 1 100)
     = Some [SetFont ''arial'' 9, DrawString 88 732 (number_words ! 7), SetFillColorBlack,
             Circle (100 + 44.5 + 7 * 16.7) 735 (4 * 2.8346 / 2)]
   \<and> (\<exists>out. read_file (snd (add_grade_to_pdf sheet_world (''d'', ''s_qt.pdf'')
                (''d'', ''output_s_qt.pdf'') sheet_grades sample_info))
              (''d'', ''output_s_qt.pdf'') = Some (PdfFile out)
          \<and> marks (out ! 0)
              = [SetFont ''arial'' 9,
                 DrawString 125 93.5 ''3'', DrawString 125 75 ''1'',
                 DrawCentredString 380 52 ''A'', DrawCentredString 380 15 ''B'',
                 DrawCentredString 505 52 ''C'', DrawCentredString 505 15 ''D'',
                 DrawString 88 732 (number_words ! 8 @ suffix_ruoi), SetFillColorBlack,
                 Circle (100 + 44.5 + 8 * 16.7) 735 (4 * 2.8346 / 2),
                 Circle 329 735 (4 * 2.8346 / 2),
                 DrawString 88 712 word_vang])"
proof -
  note t = header_on_first_page_only [where w = sheet_world and input_pdf = "(''d'', ''s_qt.pdf'')"
      and output_pdf = "(''d'', ''output_s_qt.pdf'')" and grades = sheet_grades
      and info = sample_info
      and w' = "snd (add_grade_to_pdf sheet_world (''d'', ''s_qt.pdf'')
                (''d'', ''output_s_qt.pdf'') sheet_grades sample_info)"
      and total_students = 3 and absent_count = 1 and sp = sheet_positions and page_num = 1
      and column_x = 100
      and can = "[SetFont ''arial'' 9, DrawString 88 732 (number_words ! 7), SetFillColorBlack,
             Circle (100 + 44.5 + 7 * 16.7) 735 (4 * 2.8346 / 2)]"]
  from t sheet_success obtain pages out column_x column_top column_bottom where
    rf: "read_file sheet_world (''d'', ''s_qt.pdf'') = Some (PdfFile pages)" and
    ro: "read_file (snd (add_grade_to_pdf sheet_world (''d'', ''s_qt.pdf'')
                (''d'', ''output_s_qt.pdf'') sheet_grades sample_info))
              (''d'', ''output_s_qt.pdf'') = Some (PdfFile out)" and
    fg: "fst (find_grade_column sheet_world (''d'', ''s_qt.pdf'')) = Some (column_x, column_top, column_bottom)" and
    each: "\<forall>i<length pages. \<not> merge_raises (pages ! i) \<longrightarrow>
                 marks (out ! i) = marks (pages ! i)
                   @ (if i = 0
                         \<or> concat (map (student_marks sheet_grades column_x)
                              (filter (on_page i) (fst (extract_student_positions sheet_world (''d'', ''s_qt.pdf'')))))
                            \<noteq> []
                      then [SetFont ''arial'' 9]
                        @ (if i = 0
                           then header_marks (length (fst (extract_student_positions sheet_world (''d'', ''s_qt.pdf''))))
                                  (absent_students sheet_grades (fst (extract_student_positions sheet_world (''d'', ''s_qt.pdf''))))
                                  sample_info
                           else [])
                        @ concat (map (student_marks sheet_grades column_x)
                            (filter (on_page i) (fst (extract_student_positions sheet_world (''d'', ''s_qt.pdf'')))))
                      else [])"
    by blast
  have p: "pages = [sheet_page1, sheet_page2]" using rf sheet_read by simp
  have cx: "column_x = 100" using fg sheet_column by simp
  have "\<not> merge_raises (pages ! 0)" by (simp add: p sheet_page1_def)
  then have "marks (out ! 0) = marks (pages ! 0) @ [SetFont ''arial'' 9]
       @ header_marks (length sheet_positions) (absent_students sheet_grades sheet_positions) sample_info
       @ concat (map (student_marks sheet_grades 100) (filter (on_page 0) sheet_positions))"
    using each p cx sheet_extract by simp
  then have "marks (out ! 0)
              = [SetFont ''arial'' 9,
                 DrawString 125 93.5 ''3'', DrawString 125 75 ''1'',
                 DrawCentredString 380 52 ''A'', DrawCentredString 380 15 ''B'',
                 DrawCentredString 505 52 ''C'', DrawCentredString 505 15 ''D'',
                 DrawString 88 732 (number_words ! 8 @ suffix_ruoi), SetFillColorBlack,
                 Circle (100 + 44.5 + 8 * 16.7) 735 (4 * 2.8346 / 2),
                 Circle 329 735 (4 * 2.8346 / 2),
                 DrawString 88 712 word_vang]"
    unfolding sheet_marks1 sheet_absent
    by (simp add: p sheet_page1_def header_marks_def sheet_positions_def sample_info_def
        str_nat.simps)
  then show ?thesis using sheet_overlay2 ro by blast
qed

subsection \<open>C9: one output page per input page\<close>

text \<open>
  Claim C9. When \<open>add_grade_to_pdf\<close> succeeds, the file it writes has exactly one page per
  page of the input, in the same order: page \<open>i\<close> of the output is page \<open>i\<close> of the input
  with at most its marks changed, and it is the input page itself when creating or merging
  its overlay raised.
\<close>

theorem add_grade_to_pdf_keeps_pages:
  assumes "add_grade_to_pdf w input_pdf output_pdf grades info = (True, w')"
  shows "\<exists>pages out.
     read_file w input_pdf = Some (PdfFile pages)
     \<and> read_file w' output_pdf = Some (PdfFile out)
     \<and> length out = length pages
     \<and> (\<forall>i<length pages.
           (out ! i)\<lparr>marks := marks (pages ! i)\<rparr> = pages ! i
           \<and> (merge_raises (pages ! i) \<longrightarrow> out ! i = pages ! i))"
proof -
  obtain pages column_x column_top column_bottom where
    rf: "read_file w input_pdf = Some (PdfFile pages)" and
    d: "dirs w' = (dirs w)(fst output_pdf :=
          AList.update (snd output_pdf)
            (PdfFile (map (\<lambda>(i, pg). merge_overlay pg
               (overlay_marks (length (fst (extract_student_positions w input_pdf)))
                  (absent_students grades (fst (extract_student_positions w input_pdf))) info
                  (fst (extract_student_positions w input_pdf)) grades column_x i))
               (zip [0..<length pages] pages)))
            (dirs w (fst output_pdf)))"
    using add_grade_to_pdf_success [OF assms] by blast
  define ov where "ov = overlay_marks (length (fst (extract_student_positions w input_pdf)))
                  (absent_students grades (fst (extract_student_positions w input_pdf))) info
                  (fst (extract_student_positions w input_pdf)) grades column_x"
  define out where "out = map (\<lambda>(i, pg). merge_overlay pg (ov i)) (zip [0..<length pages] pages)"
  have ro: "read_file w' output_pdf = Some (PdfFile out)"
    using read_file_written [OF d] by (simp add: out_def ov_def)
  have len: "length out = length pages" by (simp add: out_def)
  have each: "\<forall>i<length pages.
           (out ! i)\<lparr>marks := marks (pages ! i)\<rparr> = pages ! i
           \<and> (merge_raises (pages ! i) \<longrightarrow> out ! i = pages ! i)"
  proof (intro allI impI)
    fix i assume i: "i < length pages"
    have "out ! i = merge_overlay (pages ! i) (ov i)"
      unfolding out_def using nth_merged [OF i] .
    then show "(out ! i)\<lparr>marks := marks (pages ! i)\<rparr> = pages ! i
           \<and> (merge_raises (pages ! i) \<longrightarrow> out ! i = pages ! i)"
      by (simp add: merge_overlay_def)
  qed
  show ?thesis using rf ro len each by blast
qed

theorem add_grade_to_pdf_keeps_pages_witness:
  "fst (add_grade_to_pdf sheet_world (''d'', ''s_qt.pdf'') (''d'', ''output_s_qt.pdf'')
          sheet_grades sample_info) = True
   \<and> (\<exists>out. read_file (snd (add_grade_to_pdf sheet_world (''d'', ''s_qt.pdf'')
                (''d'', ''output_s_qt.pdf'') sheet_grades sample_info))
              (''d'', ''output_s_qt.pdf'') = Some (PdfFile out)
          \<and> length out = 2 \<and> out ! 1 = sheet_page2)"
proof -
  obtain pages out where
    rf: "read_file sheet_world (''d'', ''s_qt.pdf'') = Some (PdfFile pages)" and
    ro: "read_file (snd (add_grade_to_pdf sheet_world (''d'', ''s_qt.pdf'')
                (''d'', ''output_s_qt.pdf'') sheet_grades sample_info))
              (''d'', ''output_s_qt.pdf'') = Some (PdfFile out)" and
    len: "length out = length pages" and
    each: "\<forall>i<length pages.
           (out ! i)\<lparr>marks := marks (pages ! i)\<rparr> = pages ! i
           \<and> (merge_raises (pages ! i) \<longrightarrow> out ! i = pages ! i)"
    using add_grade_to_pdf_keeps_pages [OF sheet_success] by blast
  have p: "pages = [sheet_page1, sheet_page2]" using rf sheet_read by simp
  have "merge_raises (pages ! 1)" by (simp add: p sheet_page2_def)
  then have "out ! 1 = sheet_page2" using each p by simp
  then show ?thesis using sheet_add ro len p by simp
qed

subsection \<open>C5: loading the grade table\<close>

lemma map_of_foldl_update:
  "map_of (foldl (\<lambda>d (k, v). AList.update k v d) d ps) = map_of (rev ps @ d)"
proof (induction ps arbitrary: d)
  case Nil
  show ?case by simp
next
  case (Cons p ps)
  show ?case
    by (cases p) (simp add: Cons.IH update_conv' map_add_def fun_eq_iff split: option.splits)
qed

lemma map_of_dict_of_pairs: "map_of (dict_of_pairs ps) = map_of (rev ps)"
  by (simp add: dict_of_pairs_def map_of_foldl_update)

lemma load_excel_data_ok:
  assumes rf: "read_file w excel_path = Some (XlsxFile df)"
    and ic: "map_of df col_ma_sv = Some id_cells"
    and sc: "map_of df col_diem = Some scores"
    and nr: "\<not> list_ex compare_raises scores"
  shows "load_excel_data float_str w excel_path =
     (Some (dict_of_pairs (zip (normalized_ids float_str id_cells) scores)),
      logmsg
        (if invalid_ids (normalized_ids float_str id_cells) scores \<noteq> []
         then logmsg w WARNING ''students with invalid scores''
                [str_nat (length (invalid_ids (normalized_ids float_str id_cells) scores)),
                 join_comma (take 5 (invalid_ids (normalized_ids float_str id_cells) scores))
                   @ (if 5 < length (invalid_ids (normalized_ids float_str id_cells) scores)
                      then ''...'' else [])]
         else w)
        INFO ''read students from excel file''
        [str_nat (length (dict_of_pairs (zip (normalized_ids float_str id_cells) scores))),
         path_str excel_path])"
  using assms
  by (simp add: load_excel_data_def path_exists_def normalized_ids_def invalid_ids_def Let_def)

lemma str_nat_samples:
  "str_nat 100000001 = ''100000001''" "str_nat 100000003 = ''100000003''"
  "str_nat 1 = ''1''" "str_nat (Suc 0) = ''1''" "str_nat 3 = ''3''"
  by (simp_all add: str_nat.simps)

lemma grade_sheet_ids:
  "normalized_ids (\<lambda>r. []) [PInt 100000001, PStr padded_id, PInt 100000003]
     = [''100000001'', ''100000002'', ''100000003'']"
  by (simp add: normalized_ids_def str_nat_samples strip_ids)

lemma grade_sheet_invalid:
  "invalid_ids [''100000001'', ''100000002'', ''100000003''] [PFloat 8.5, PInt 11, PNaN]
     = [''100000002'']"
  by (simp add: invalid_ids_def out_of_range_def)

text \<open>
  Claim C5 says that every entry with a score outside \<open>[0, 10]\<close> is retained in the table,
  so that lookup returns the source's value for every ID. The table is built by
  \<^verbatim>\<open>dict(zip(df['Ma SV'], df['Diem']))\<close> after the IDs are made strings and stripped, so
  of two rows with the same stripped ID only the later one is kept: in the sheet whose
  rows are the number 1 with the score 11 and the text \<^verbatim>\<open>'1 '\<close> with the score 5, the
  warning lists the ID \<open>1\<close> for its score 11, and the table holds the score 5 for it and
  nothing else.
\<close>

theorem load_excel_data_repeated_id_overwritten:
  "read_file repeat_world (''d'', ''grade_qt.xlsx'') = Some (XlsxFile repeat_sheet)
   \<and> map_of repeat_sheet col_ma_sv = Some [PInt 1, PStr ''1 '']
   \<and> map_of repeat_sheet col_diem = Some [PInt 11, PInt 5]
   \<and> out_of_range (PInt 11)
   \<and> fst (load_excel_data (\<lambda>r. []) repeat_world (''d'', ''grade_qt.xlsx''))
       = Some [(''1'', PInt 5)]
   \<and> log (snd (load_excel_data (\<lambda>r. []) repeat_world (''d'', ''grade_qt.xlsx'')))
       = [Log WARNING ''students with invalid scores'' [''1'', ''1''],
          Log INFO ''read students from excel file'' [''1'', ''d/grade_qt.xlsx'']]"
proof -
  have rf: "read_file repeat_world (''d'', ''grade_qt.xlsx'') = Some (XlsxFile repeat_sheet)"
    by (simp add: read_file_def repeat_world_def)
  have ic: "map_of repeat_sheet col_ma_sv = Some [PInt 1, PStr ''1 '']"
    by (simp add: repeat_sheet_def)
  have sc: "map_of repeat_sheet col_diem = Some [PInt 11, PInt 5]"
    by (simp add: repeat_sheet_def col_diem_def col_ma_sv_def)
  have nr: "\<not> list_ex compare_raises [PInt 11, PInt 5]" by simp
  have oor: "out_of_range (PInt 11)" by (simp add: out_of_range_def)
  have ids: "normalized_ids (\<lambda>r. []) [PInt 1, PStr ''1 ''] = [''1'', ''1'']"
    by (simp add: normalized_ids_def str_nat_samples strip_ids)
  have inv: "invalid_ids [''1'', ''1''] [PInt 11, PInt 5] = [''1'']"
    by (simp add: invalid_ids_def out_of_range_def)
  have tab: "dict_of_pairs (zip [''1'', ''1''] [PInt 11, PInt 5]) = [(''1'', PInt 5)]"
    by (simp add: dict_of_pairs_def)
  have "load_excel_data (\<lambda>r. []) repeat_world (''d'', ''grade_qt.xlsx'')
      = (Some [(''1'', PInt 5)],
         logmsg (logmsg repeat_world WARNING ''students with invalid scores'' [''1'', ''1''])
           INFO ''read students from excel file'' [''1'', ''d/grade_qt.xlsx''])"
    using load_excel_data_ok [OF rf ic sc nr, of "\<lambda>r. []"]
    unfolding ids inv tab by (simp add: str_nat_samples path_str_def)
  then have "fst (load_excel_data (\<lambda>r. []) repeat_world (''d'', ''grade_qt.xlsx''))
       = Some [(''1'', PInt 5)]"
    and "log (snd (load_excel_data (\<lambda>r. []) repeat_world (''d'', ''grade_qt.xlsx'')))
       = [Log WARNING ''students with invalid scores'' [''1'', ''1''],
          Log INFO ''read students from excel file'' [''1'', ''d/grade_qt.xlsx'']]"
    by (simp_all add: logmsg_def repeat_world_def)
  then show ?thesis using rf ic sc oor by simp
qed

text \<open>
  Claim C5, amended. \<open>load_excel_data\<close> fails when the path does not exist and when the
  sheet lacks the ID column or the score column. It succeeds exactly on a sheet with both
  columns whose scores are numbers or missing; then the keys are the stripped string forms
  of the IDs; a score outside \<open>[0, 10]\<close> only adds one warning to the log, which lists at
  most five of the offending IDs, and the files are left as they are; the range check
  drops and changes no entry: the table holds, for every ID, the score of the last row
  that carries it, so when the stripped IDs are distinct every row of the sheet is in the
  table with exactly its score, the out-of-range ones included.
\<close>

theorem load_excel_data_result:
  "(\<not> path_exists w excel_path \<longrightarrow> fst (load_excel_data float_str w excel_path) = None)
   \<and> (read_file w excel_path = Some (XlsxFile df)
        \<and> (map_of df col_ma_sv = None \<or> map_of df col_diem = None) \<longrightarrow>
        fst (load_excel_data float_str w excel_path) = None)
   \<and> (read_file w excel_path = Some (XlsxFile df)
        \<and> map_of df col_ma_sv = Some id_cells \<and> map_of df col_diem = Some scores
        \<and> \<not> list_ex compare_raises scores \<longrightarrow>
        (\<exists>grades.
           fst (load_excel_data float_str w excel_path) = Some grades
           \<and> dom (map_of grades) = fst ` set (zip (normalized_ids float_str id_cells) scores)
           \<and> (\<forall>k v. map_of grades k = Some v \<longleftrightarrow>
                 (\<exists>before after.
                    zip (normalized_ids float_str id_cells) scores = before @ (k, v) # after
                    \<and> k \<notin> fst ` set after))
           \<and> (distinct (normalized_ids float_str id_cells) \<longrightarrow>
                 (\<forall>i<length (zip (normalized_ids float_str id_cells) scores).
                    map_of grades (normalized_ids float_str id_cells ! i) = Some (scores ! i)))
           \<and> dirs (snd (load_excel_data float_str w excel_path)) = dirs w
           \<and> log (snd (load_excel_data float_str w excel_path))
               = log w
                 @ (if invalid_ids (normalized_ids float_str id_cells) scores = [] then []
                    else [Log WARNING ''students with invalid scores''
                           [str_nat (length (invalid_ids (normalized_ids float_str id_cells) scores)),
                            join_comma (take 5 (invalid_ids (normalized_ids float_str id_cells) scores))
                              @ (if 5 < length (invalid_ids (normalized_ids float_str id_cells) scores)
                                 then ''...'' else [])]])
                 @ [Log INFO ''read students from excel file''
                      [str_nat (length grades), path_str excel_path]]))
   \<and> (fst (load_excel_data float_str w excel_path) \<noteq> None \<longrightarrow>
        (\<exists>df id_cells scores.
           read_file w excel_path = Some (XlsxFile df)
           \<and> map_of df col_ma_sv = Some id_cells \<and> map_of df col_diem = Some scores
           \<and> \<not> list_ex compare_raises scores))"
proof -
  have a: "\<not> path_exists w excel_path \<longrightarrow> fst (load_excel_data float_str w excel_path) = None"
    by (simp add: load_excel_data_def)
  have b: "read_file w excel_path = Some (XlsxFile df)
        \<and> (map_of df col_ma_sv = None \<or> map_of df col_diem = None) \<longrightarrow>
        fst (load_excel_data float_str w excel_path) = None"
    by (auto simp: load_excel_data_def split: option.splits)
  have c: "read_file w excel_path = Some (XlsxFile df)
        \<and> map_of df col_ma_sv = Some id_cells \<and> map_of df col_diem = Some scores
        \<and> \<not> list_ex compare_raises scores \<longrightarrow>
        (\<exists>grades.
           fst (load_excel_data float_str w excel_path) = Some grades
           \<and> dom (map_of grades) = fst ` set (zip (normalized_ids float_str id_cells) scores)
           \<and> (\<forall>k v. map_of grades k = Some v \<longleftrightarrow>
                 (\<exists>before after.
                    zip (normalized_ids float_str id_cells) scores = before @ (k, v) # after
                    \<and> k \<notin> fst ` set after))
           \<and> (distinct (normalized_ids float_str id_cells) \<longrightarrow>
                 (\<forall>i<length (zip (normalized_ids float_str id_cells) scores).
                    map_of grades (normalized_ids float_str id_cells ! i) = Some (scores ! i)))
           \<and> dirs (snd (load_excel_data float_str w excel_path)) = dirs w
           \<and> log (snd (load_excel_data float_str w excel_path))
               = log w
                 @ (if invalid_ids (normalized_ids float_str id_cells) scores = [] then []
                    else [Log WARNING ''students with invalid scores''
                           [str_nat (length (invalid_ids (normalized_ids float_str id_cells) scores)),
                            join_comma (take 5 (invalid_ids (normalized_ids float_str id_cells) scores))
                              @ (if 5 < length (invalid_ids (normalized_ids float_str id_cells) scores)
                                 then ''...'' else [])]])
                 @ [Log INFO ''read students from excel file''
                      [str_nat (length grades), path_str excel_path]])"
  proof
    assume h: "read_file w excel_path = Some (XlsxFile df)
        \<and> map_of df col_ma_sv = Some id_cells \<and> map_of df col_diem = Some scores
        \<and> \<not> list_ex compare_raises scores"
    define ids where "ids = normalized_ids float_str id_cells"
    define grades where "grades = dict_of_pairs (zip ids scores)"
    have m: "map_of grades = map_of (rev (zip ids scores))"
      by (simp add: grades_def map_of_dict_of_pairs)
    note ok = load_excel_data_ok [of w excel_path df id_cells scores float_str,
        folded ids_def, folded grades_def]
    have r: "load_excel_data float_str w excel_path =
     (Some grades,
      logmsg
        (if invalid_ids ids scores \<noteq> []
         then logmsg w WARNING ''students with invalid scores''
                [str_nat (length (invalid_ids ids scores)),
                 join_comma (take 5 (invalid_ids ids scores))
                   @ (if 5 < length (invalid_ids ids scores) then ''...'' else [])]
         else w)
        INFO ''read students from excel file''
        [str_nat (length grades), path_str excel_path])"
      using ok h by blast
    have p1: "fst (load_excel_data float_str w excel_path) = Some grades" by (simp add: r)
    have "dom (map_of grades) = fst ` set (rev (zip ids scores))"
      unfolding m by (rule dom_map_of_conv_image_fst)
    then have p2: "dom (map_of grades) = fst ` set (zip ids scores)" by simp
    have p3: "\<forall>k v. map_of grades k = Some v \<longleftrightarrow>
                 (\<exists>before after. zip ids scores = before @ (k, v) # after \<and> k \<notin> fst ` set after)"
      unfolding m by (simp only: map_of_rev_last) simp
    have p4: "distinct ids \<longrightarrow>
                 (\<forall>i<length (zip ids scores). map_of grades (ids ! i) = Some (scores ! i))"
    proof (intro impI allI)
      fix i assume d: "distinct ids" and i: "i < length (zip ids scores)"
      have dz: "distinct (map fst (rev (zip ids scores)))"
        using d by (simp add: rev_map [symmetric] map_fst_zip_take)
      have "(ids ! i, scores ! i) \<in> set (rev (zip ids scores))"
        using i by (auto simp: set_zip)
      then show "map_of grades (ids ! i) = Some (scores ! i)"
        unfolding m using dz by (rule map_of_is_SomeI [rotated])
    qed
    have p5: "dirs (snd (load_excel_data float_str w excel_path)) = dirs w"
      by (simp add: r logmsg_def)
    have p6: "log (snd (load_excel_data float_str w excel_path))
               = log w
                 @ (if invalid_ids ids scores = [] then []
                    else [Log WARNING ''students with invalid scores''
                           [str_nat (length (invalid_ids ids scores)),
                            join_comma (take 5 (invalid_ids ids scores))
                              @ (if 5 < length (invalid_ids ids scores) then ''...'' else [])]])
                 @ [Log INFO ''read students from excel file''
                      [str_nat (length grades), path_str excel_path]]"
      by (simp add: r logmsg_def)
    show "\<exists>grades.
           fst (load_excel_data float_str w excel_path) = Some grades
           \<and> dom (map_of grades) = fst ` set (zip (normalized_ids float_str id_cells) scores)
           \<and> (\<forall>k v. map_of grades k = Some v \<longleftrightarrow>
                 (\<exists>before after.
                    zip (normalized_ids float_str id_cells) scores = before @ (k, v) # after
                    \<and> k \<notin> fst ` set after))
           \<and> (distinct (normalized_ids float_str id_cells) \<longrightarrow>
                 (\<forall>i<length (zip (normalized_ids float_str id_cells) scores).
                    map_of grades (normalized_ids float_str id_cells ! i) = Some (scores ! i)))
           \<and> dirs (snd (load_excel_data float_str w excel_path)) = dirs w
           \<and> log (snd (load_excel_data float_str w excel_path))
               = log w
                 @ (if invalid_ids (normalized_ids float_str id_cells) scores = [] then []
                    else [Log WARNING ''students with invalid scores''
                           [str_nat (length (invalid_ids (normalized_ids float_str id_cells) scores)),
                            join_comma (take 5 (invalid_ids (normalized_ids float_str id_cells) scores))
                              @ (if 5 < length (invalid_ids (normalized_ids float_str id_cells) scores)
                                 then ''...'' else [])]])
                 @ [Log INFO ''read students from excel file''
                      [str_nat (length grades), path_str excel_path]]"
      using p1 p2 p3 p4 p5 p6 unfolding ids_def by blast
  qed
  have d: "fst (load_excel_data float_str w excel_path) \<noteq> None \<longrightarrow>
        (\<exists>df id_cells scores.
           read_file w excel_path = Some (XlsxFile df)
           \<and> map_of df col_ma_sv = Some id_cells \<and> map_of df col_diem = Some scores
           \<and> \<not> list_ex compare_raises scores)"
    by (auto simp: load_excel_data_def Let_def
        split: if_splits option.splits file_data.splits)
  show ?thesis using a b c d by blast
qed

theorem load_excel_data_result_witness:
  "fst (load_excel_data (\<lambda>r. []) excel_world (''d'', ''missing.xlsx'')) = None
   \<and> (\<exists>grades. fst (load_excel_data (\<lambda>r. []) excel_world (''d'', ''grade_qt.xlsx'')) = Some grades
         \<and> map_of grades ''100000002'' = Some (PInt 11))
   \<and> log (snd (load_excel_data (\<lambda>r. []) excel_world (''d'', ''grade_qt.xlsx'')))
       = [Log WARNING ''students with invalid scores'' [''1'', ''100000002''],
          Log INFO ''read students from excel file'' [''3'', ''d/grade_qt.xlsx'']]"
proof -
  have ne: "\<not> path_exists excel_world (''d'', ''missing.xlsx'')"
    by (simp add: path_exists_def read_file_def excel_world_def)
  have rf: "read_file excel_world (''d'', ''grade_qt.xlsx'') = Some (XlsxFile grade_sheet)"
    by (simp add: read_file_def excel_world_def)
  have ic: "map_of grade_sheet col_ma_sv
      = Some [PInt 100000001, PStr padded_id, PInt 100000003]"
    by (simp add: grade_sheet_def)
  have sc: "map_of grade_sheet col_diem = Some [PFloat 8.5, PInt 11, PNaN]"
    by (simp add: grade_sheet_def col_diem_def col_ma_sv_def)
  have nr: "\<not> list_ex compare_raises [PFloat 8.5, PInt 11, PNaN]" by simp
  note t1 = load_excel_data_result [where w = excel_world and excel_path = "(''d'', ''missing.xlsx'')"
      and float_str = "\<lambda>r. []"]
  note t2 = load_excel_data_result [where w = excel_world and excel_path = "(''d'', ''grade_qt.xlsx'')"
      and float_str = "\<lambda>r. []" and df = grade_sheet
      and id_cells = "[PInt 100000001, PStr padded_id, PInt 100000003]"
      and scores = "[PFloat 8.5, PInt 11, PNaN]"]
  have a: "fst (load_excel_data (\<lambda>r. []) excel_world (''d'', ''missing.xlsx'')) = None"
    using t1 ne by blast
  from t2 rf ic sc nr obtain grades where
    g: "fst (load_excel_data (\<lambda>r. []) excel_world (''d'', ''grade_qt.xlsx'')) = Some grades" and
    d: "distinct (normalized_ids (\<lambda>r. []) [PInt 100000001, PStr padded_id, PInt 100000003]) \<longrightarrow>
          (\<forall>i<length (zip (normalized_ids (\<lambda>r. []) [PInt 100000001, PStr padded_id, PInt 100000003])
                         [PFloat 8.5, PInt 11, PNaN]).
              map_of grades (normalized_ids (\<lambda>r. []) [PInt 100000001, PStr padded_id, PInt 100000003] ! i)
                = Some ([PFloat 8.5, PInt 11, PNaN] ! i))" and
    l: "log (snd (load_excel_data (\<lambda>r. []) excel_world (''d'', ''grade_qt.xlsx'')))
               = log excel_world
                 @ (if invalid_ids (normalized_ids (\<lambda>r. []) [PInt 100000001, PStr padded_id, PInt 100000003])
                         [PFloat 8.5, PInt 11, PNaN] = [] then []
                    else [Log WARNING ''students with invalid scores''
                           [str_nat (length (invalid_ids (normalized_ids (\<lambda>r. []) [PInt 100000001, PStr padded_id, PInt 100000003]) [PFloat 8.5, PInt 11, PNaN])),
                            join_comma (take 5 (invalid_ids (normalized_ids (\<lambda>r. []) [PInt 100000001, PStr padded_id, PInt 100000003]) [PFloat 8.5, PInt 11, PNaN]))
                              @ (if 5 < length (invalid_ids (normalized_ids (\<lambda>r. []) [PInt 100000001, PStr padded_id, PInt 100000003]) [PFloat 8.5, PInt 11, PNaN])
                                 then ''...'' else [])]])
                 @ [Log INFO ''read students from excel file''
                      [str_nat (length grades), path_str (''d'', ''grade_qt.xlsx'')]]"
    by blast
  have "\<forall>i<3. map_of grades ([''100000001'', ''100000002'', ''100000003''] ! i)
      = Some ([PFloat 8.5, PInt 11, PNaN] ! i)"
    using d unfolding grade_sheet_ids by simp
  then have "map_of grades ([''100000001'', ''100000002'', ''100000003''] ! 1)
      = Some ([PFloat 8.5, PInt 11, PNaN] ! 1)"
    by (rule allE [where x = 1]) simp
  then have b: "map_of grades ''100000002'' = Some (PInt 11)" by simp
  have "grades = dict_of_pairs (zip [''100000001'', ''100000002'', ''100000003''] [PFloat 8.5, PInt 11, PNaN])"
    using g load_excel_data_ok [OF rf ic sc nr, of "\<lambda>r. []"] unfolding grade_sheet_ids by simp
  then have len: "length grades = 3" by (simp add: dict_of_pairs_def)
  have c: "log (snd (load_excel_data (\<lambda>r. []) excel_world (''d'', ''grade_qt.xlsx'')))
       = [Log WARNING ''students with invalid scores'' [''1'', ''100000002''],
          Log INFO ''read students from excel file'' [''3'', ''d/grade_qt.xlsx'']]"
    using l unfolding grade_sheet_ids grade_sheet_invalid len
    by (simp add: excel_world_def str_nat_samples path_str_def)
  show ?thesis using a g b c by blast
qed

subsection \<open>C10: which documents a category selects\<close>

lemma contains_Cons: "contains s t \<Longrightarrow> contains (c # s) t"
  by simp

lemma contains_append_left: "contains s t \<Longrightarrow> contains (p @ s) t"
  by (induction p) (simp_all del: contains.simps add: contains_Cons)

lemma endswith_append_left:
  assumes "endswith s t"
  shows "endswith (p @ s) t"
proof -
  have l: "length t \<le> length s" and d: "drop (length s - length t) s = t"
    using assms by (simp_all add: endswith_def)
  have "length (p @ s) - length t = length p + (length s - length t)" using l by simp
  then have "drop (length (p @ s) - length t) (p @ s) = drop (length s - length t) s"
    by simp
  then show ?thesis using l d by (simp add: endswith_def)
qed

lemma listdir_written:
  "dirs w' = (dirs w)(d := AList.update n f (dirs w d)) \<Longrightarrow> n \<in> set (listdir w' d)"
proof -
  assume "dirs w' = (dirs w)(d := AList.update n f (dirs w d))"
  then have "listdir w' d = map fst (AList.update n f (dirs w d))"
    by (simp add: listdir_def)
  moreover have "n \<in> fst ` set (AList.update n f (dirs w d))"
    by (simp add: dom_update)
  ultimately show ?thesis by simp
qed

text \<open>
  Claim C10 says that every file name containing \<^verbatim>\<open><category>.pdf\<close> is selected. The
  filter also asks for \<^verbatim>\<open>f.endswith('.pdf')\<close>: the name \<^verbatim>\<open>a_qt.pdf.bak\<close> contains
  \<^verbatim>\<open>qt.pdf\<close> and is not selected.
\<close>

theorem pdf_files_of_skips_other_extensions:
  "''a_qt.pdf.bak'' \<in> set (listdir backup_world ''d'')
   \<and> contains ''a_qt.pdf.bak'' (''qt'' @ ''.pdf'')
   \<and> ''a_qt.pdf.bak'' \<notin> set (pdf_files_of backup_world ''d'' ''qt'')"
  by (simp add: pdf_files_of_def listdir_def backup_world_def endswith_def)

text \<open>
  Claim C10, amended. The filter selects exactly the names of the directory that end with
  \<^verbatim>\<open>.pdf\<close> and contain \<^verbatim>\<open><category>.pdf\<close> somewhere. So the output a successful
  \<open>add_grade_to_pdf\<close> writes for a selected document, \<^verbatim>\<open>output_<name>\<close>, is selected as
  well when the directory is listed again; and a name need not end with
  \<^verbatim>\<open><category>.pdf\<close> to be selected, as \<^verbatim>\<open>a_qt.pdf_v2.pdf\<close> shows.
\<close>

theorem pdf_files_of_selection:
  "(f \<in> set (pdf_files_of w directory grade_type) \<longleftrightarrow>
      f \<in> set (listdir w directory) \<and> endswith f ''.pdf''
      \<and> contains f (grade_type @ ''.pdf''))
   \<and> (f \<in> set (pdf_files_of w directory grade_type)
        \<and> add_grade_to_pdf w (directory, f) (directory, ''output_'' @ f) grades info = (True, w')
        \<longrightarrow> ''output_'' @ f \<in> set (pdf_files_of w' directory grade_type))
   \<and> endswith ''a_qt.pdf_v2.pdf'' ''.pdf'' \<and> contains ''a_qt.pdf_v2.pdf'' (''qt'' @ ''.pdf'')
   \<and> \<not> endswith ''a_qt.pdf_v2.pdf'' (''qt'' @ ''.pdf'')"
proof -
  have a: "f \<in> set (pdf_files_of w directory grade_type) \<longleftrightarrow>
      f \<in> set (listdir w directory) \<and> endswith f ''.pdf''
      \<and> contains f (grade_type @ ''.pdf'')"
    by (auto simp: pdf_files_of_def)
  have b: "f \<in> set (pdf_files_of w directory grade_type)
        \<and> add_grade_to_pdf w (directory, f) (directory, ''output_'' @ f) grades info = (True, w')
        \<longrightarrow> ''output_'' @ f \<in> set (pdf_files_of w' directory grade_type)"
  proof
    assume h: "f \<in> set (pdf_files_of w directory grade_type)
        \<and> add_grade_to_pdf w (directory, f) (directory, ''output_'' @ f) grades info = (True, w')"
    then have e: "endswith f ''.pdf''" and c: "contains f (grade_type @ ''.pdf'')"
      using a by simp_all
    have s: "add_grade_to_pdf w (directory, f) (directory, ''output_'' @ f) grades info = (True, w')"
      using h by simp
    obtain out where "dirs w' = (dirs w)(directory :=
        AList.update (''output_'' @ f) (PdfFile out) (dirs w directory))"
      using add_grade_to_pdf_success [OF s] by auto
    then have "''output_'' @ f \<in> set (listdir w' directory)" by (rule listdir_written)
    moreover have "endswith (''output_'' @ f) ''.pdf''"
      using e by (rule endswith_append_left)
    moreover have "contains (''output_'' @ f) (grade_type @ ''.pdf'')"
      using c by (rule contains_append_left)
    ultimately show "''output_'' @ f \<in> set (pdf_files_of w' directory grade_type)"
      by (simp add: pdf_files_of_def)
  qed
  have c: "endswith ''a_qt.pdf_v2.pdf'' ''.pdf'' \<and> contains ''a_qt.pdf_v2.pdf'' (''qt'' @ ''.pdf'')
   \<and> \<not> endswith ''a_qt.pdf_v2.pdf'' (''qt'' @ ''.pdf'')"
    by (simp add: endswith_def)
  show ?thesis using a b c by blast
qed

theorem pdf_files_of_selection_witness:
  "pdf_files_of sheet_world ''d'' ''qt'' = [''s_qt.pdf'']
   \<and> ''output_s_qt.pdf''
       \<in> set (pdf_files_of
                (snd (add_grade_to_pdf sheet_world (''d'', ''s_qt.pdf'') (''d'', ''output_s_qt.pdf'')
                        sheet_grades sample_info))
                ''d'' ''qt'')"
proof -
  have p: "pdf_files_of sheet_world ''d'' ''qt'' = [''s_qt.pdf'']"
    by (simp add: pdf_files_of_def listdir_def sheet_world_def endswith_def)
  have o: "''output_'' @ ''s_qt.pdf'' = ''output_s_qt.pdf''" by simp
  show ?thesis
    using p sheet_success
      pdf_files_of_selection [where f = "''s_qt.pdf''" and w = sheet_world and directory = "''d''"
        and grade_type = "''qt''" and grades = sheet_grades and info = sample_info
        and w' = "snd (add_grade_to_pdf sheet_world (''d'', ''s_qt.pdf'') (''d'', ''output_s_qt.pdf'')
                        sheet_grades sample_info)"]
    unfolding o by simp
qed

subsection \<open>C7: the result of the batch run\<close>

lemma split_columns_types:
  "fst (split_columns w df id_cells cols available_types)
     = available_types @ map fst (filter (\<lambda>(grade_type, column). map_of df column \<noteq> None) cols)"
proof (induction cols arbitrary: w available_types)
  case Nil
  show ?case by simp
next
  case (Cons c cols)
  show ?case
    by (cases c) (simp add: Cons.IH Let_def split: option.splits)
qed

lemma prepare_grade_files_types:
  assumes "read_file w input_excel = Some (XlsxFile df)" "map_of df ''StudentID'' = Some id_cells"
  shows "fst (prepare_grade_files w input_excel)
     = (if present_types df = [] then None else Some (present_types df))"
proof -
  obtain ts w1 where s: "split_columns w df id_cells grade_columns [] = (ts, w1)"
    by (metis surj_pair)
  have "ts = present_types df"
    using split_columns_types [of w df id_cells grade_columns "[]"] s
    by (simp add: present_types_def)
  then show ?thesis
    using assms s by (simp add: prepare_grade_files_def path_exists_def)
qed

lemma prepare_grade_files_fails:
  "(\<forall>df. read_file w input_excel \<noteq> Some (XlsxFile df)) \<Longrightarrow>
   fst (prepare_grade_files w input_excel) = None"
  "read_file w input_excel = Some (XlsxFile df) \<Longrightarrow> map_of df ''StudentID'' = None \<Longrightarrow>
   fst (prepare_grade_files w input_excel) = None"
  by (auto simp: prepare_grade_files_def path_exists_def split: option.splits file_data.splits)

lemma present_types_empty:
  "present_types df = [] \<longleftrightarrow> (\<forall>c \<in> snd ` set grade_columns. map_of df c = None)"
  by (auto simp: present_types_def filter_empty_conv)

lemma batch_glob: "glob_xlsx batch_world ''d'' = [''scores.xlsx'']"
  by (simp add: glob_xlsx_def listdir_def batch_world_def endswith_def)

lemma batch_present: "present_types batch_sheet = [''qt'']"
  by (simp add: present_types_def grade_columns_def batch_sheet_def col_diem_def kw_qua_trinh_def
      kw_giua_ky_def kw_cuoi_ky_def)

lemma batch_read: "read_file batch_world (''d'', ''scores.xlsx'') = Some (XlsxFile batch_sheet)"
  by (simp add: read_file_def batch_world_def)

lemma batch_ids: "map_of batch_sheet ''StudentID'' = Some [PInt 100000001]"
  by (simp add: batch_sheet_def)

lemma batch_listing:
  "listdir (snd (process_files (\<lambda>r. []) batch_world ''d'' sample_info True)) ''d''
     = [''scores.xlsx'', ''grade_qt.xlsx'', ''a_qt.pdf'']"
  apply (simp add: process_files_def batch_glob)
  apply (simp add: prepare_grade_files_def path_exists_def batch_read batch_ids)
  apply (simp add: grade_columns_def batch_sheet_def col_diem_def kw_qua_trinh_def
      kw_giua_ky_def kw_cuoi_ky_def col_ma_sv_def write_file_def logmsg_def batch_world_def Let_def)
  apply (simp add: rename_pdf_files_def listdir_def rename_one_def endswith_def read_file_def
       batch_page_def find_suffix_def keywords_map_def lower_def is_ascii_def sample_unicode_def lower_char_def kw_qua_trinh_def
      kw_giua_ky_def kw_cuoi_ky_def rsplit_dot_head_def free_name.simps rename_file_def logmsg_def Let_def)
  apply (simp add: process_grade_type_def path_exists_def read_file_def pdf_files_of_def listdir_def
      endswith_def load_excel_data_def col_ma_sv_def col_diem_def Let_def str_nat.simps strip_ids
      out_of_range_def dict_of_pairs_def logmsg_def
      add_grade_to_pdf_def find_grade_column_def)
  done

lemma batch_log:
  "log (snd (process_files (\<lambda>r. []) batch_world ''d'' sample_info True))
     = [Log INFO ''created file'' [''grade_qt.xlsx''],
        Log INFO ''renamed file'' [''a.pdf'', ''a_qt.pdf''],
        Log INFO ''read students from excel file'' [''1'', ''d/grade_qt.xlsx''],
        Log WARNING ''grade column not found'' [''d/a_qt.pdf''],
        Log ERROR ''grade column not found in pdf'' [''d/a_qt.pdf''],
        Log INFO ''processed files for grade type'' [''0'', ''qt'']]"
  apply (simp add: process_files_def batch_glob)
  apply (simp add: prepare_grade_files_def path_exists_def batch_read batch_ids)
  apply (simp add: grade_columns_def batch_sheet_def col_diem_def kw_qua_trinh_def
      kw_giua_ky_def kw_cuoi_ky_def col_ma_sv_def write_file_def logmsg_def batch_world_def Let_def)
  apply (simp add: rename_pdf_files_def listdir_def rename_one_def endswith_def read_file_def
       batch_page_def find_suffix_def keywords_map_def lower_def is_ascii_def sample_unicode_def lower_char_def kw_qua_trinh_def
      kw_giua_ky_def kw_cuoi_ky_def rsplit_dot_head_def free_name.simps rename_file_def logmsg_def Let_def)
  apply (simp add: process_grade_type_def path_exists_def read_file_def pdf_files_of_def listdir_def
      endswith_def load_excel_data_def col_ma_sv_def col_diem_def Let_def str_nat.simps strip_ids
      out_of_range_def dict_of_pairs_def logmsg_def path_str_def
      add_grade_to_pdf_def find_grade_column_def)
  done

text \<open>
  Claim C7. \<open>process_files\<close> returns \<open>True\<close> exactly when the directory has a spreadsheet
  and \<open>prepare_grade_files\<close> succeeds on the first one. It returns \<open>False\<close> when no
  \<^verbatim>\<open>*.xlsx\<close> name is listed; \<open>prepare_grade_files\<close> fails when none of the three score
  columns is present (and when the file is no sheet or lacks \<^verbatim>\<open>StudentID\<close>), and otherwise
  returns the categories present. What the documents of the categories do afterwards does
  not enter the result: their failures are only logged.
\<close>

theorem process_files_result:
  "(fst (process_files float_str w directory info parallel) \<longleftrightarrow>
      glob_xlsx w directory \<noteq> []
      \<and> fst (prepare_grade_files w (directory, hd (glob_xlsx w directory))) \<noteq> None)
   \<and> (glob_xlsx w directory = [] \<longleftrightarrow>
        \<not> (\<exists>n \<in> set (listdir w directory). endswith n ''.xlsx'' \<and> \<not> (n \<noteq> [] \<and> hd n = CHR ''.'')))
   \<and> (read_file w input_excel = Some (XlsxFile df) \<and> map_of df ''StudentID'' = Some id_cells \<longrightarrow>
        fst (prepare_grade_files w input_excel)
          = (if present_types df = [] then None else Some (present_types df)))
   \<and> (read_file w input_excel = Some (XlsxFile df)
        \<and> (\<forall>c \<in> snd ` set grade_columns. map_of df c = None) \<longrightarrow>
        fst (prepare_grade_files w input_excel) = None)
   \<and> (read_file w input_excel = Some (XlsxFile df) \<and> map_of df ''StudentID'' = None \<longrightarrow>
        fst (prepare_grade_files w input_excel) = None)
   \<and> ((\<forall>df. read_file w input_excel \<noteq> Some (XlsxFile df)) \<longrightarrow>
        fst (prepare_grade_files w input_excel) = None)"
proof -
  have a: "fst (process_files float_str w directory info parallel) \<longleftrightarrow>
      glob_xlsx w directory \<noteq> []
      \<and> fst (prepare_grade_files w (directory, hd (glob_xlsx w directory))) \<noteq> None"
  proof (cases "glob_xlsx w directory = []")
    case True
    then show ?thesis by (simp add: process_files_def)
  next
    case False
    obtain r w1 where p: "prepare_grade_files w (directory, hd (glob_xlsx w directory)) = (r, w1)"
      by (metis surj_pair)
    show ?thesis
      using False p by (cases r) (simp_all add: process_files_def Let_def split: prod.splits)
  qed
  have b: "glob_xlsx w directory = [] \<longleftrightarrow>
        \<not> (\<exists>n \<in> set (listdir w directory). endswith n ''.xlsx'' \<and> \<not> (n \<noteq> [] \<and> hd n = CHR ''.''))"
    by (simp add: glob_xlsx_def filter_empty_conv)
  have c: "read_file w input_excel = Some (XlsxFile df) \<and> map_of df ''StudentID'' = Some id_cells \<longrightarrow>
        fst (prepare_grade_files w input_excel)
          = (if present_types df = [] then None else Some (present_types df))"
    using prepare_grade_files_types by blast
  have d: "read_file w input_excel = Some (XlsxFile df)
        \<and> (\<forall>c \<in> snd ` set grade_columns. map_of df c = None) \<longrightarrow>
        fst (prepare_grade_files w input_excel) = None"
  proof
    assume h: "read_file w input_excel = Some (XlsxFile df)
        \<and> (\<forall>c \<in> snd ` set grade_columns. map_of df c = None)"
    then have e: "present_types df = []" using present_types_empty by blast
    show "fst (prepare_grade_files w input_excel) = None"
    proof (cases "map_of df ''StudentID''")
      case None
      then show ?thesis using h prepare_grade_files_fails(2) by blast
    next
      case (Some id_cells)
      then show ?thesis using h e prepare_grade_files_types [of w input_excel df id_cells] by simp
    qed
  qed
  have e: "read_file w input_excel = Some (XlsxFile df) \<and> map_of df ''StudentID'' = None \<longrightarrow>
        fst (prepare_grade_files w input_excel) = None"
    using prepare_grade_files_fails(2) by blast
  have f: "(\<forall>df. read_file w input_excel \<noteq> Some (XlsxFile df)) \<longrightarrow>
        fst (prepare_grade_files w input_excel) = None"
    using prepare_grade_files_fails(1) by blast
  show ?thesis using a b c d e f by blast
qed

theorem process_files_result_witness:
  "fst (process_files (\<lambda>r. []) batch_world ''d'' sample_info True)
   \<and> listdir (snd (process_files (\<lambda>r. []) batch_world ''d'' sample_info True)) ''d''
       = [''scores.xlsx'', ''grade_qt.xlsx'', ''a_qt.pdf'']
   \<and> log (snd (process_files (\<lambda>r. []) batch_world ''d'' sample_info True))
       = [Log INFO ''created file'' [''grade_qt.xlsx''],
          Log INFO ''renamed file'' [''a.pdf'', ''a_qt.pdf''],
          Log INFO ''read students from excel file'' [''1'', ''d/grade_qt.xlsx''],
          Log WARNING ''grade column not found'' [''d/a_qt.pdf''],
          Log ERROR ''grade column not found in pdf'' [''d/a_qt.pdf''],
          Log INFO ''processed files for grade type'' [''0'', ''qt'']]
   \<and> \<not> fst (process_files (\<lambda>r. []) sheet_world ''d'' sample_info True)"
proof -
  have p: "fst (prepare_grade_files batch_world (''d'', hd (glob_xlsx batch_world ''d''))) = Some [''qt'']"
    using process_files_result [where w = batch_world and input_excel = "(''d'', ''scores.xlsx'')"
        and df = batch_sheet and id_cells = "[PInt 100000001]"]
      batch_read batch_ids
    by (simp add: batch_glob batch_present)
  have a: "fst (process_files (\<lambda>r. []) batch_world ''d'' sample_info True)"
    using process_files_result [where w = batch_world and directory = "''d''"
        and float_str = "\<lambda>r. []" and info = sample_info and parallel = True] p
    by (simp add: batch_glob)
  have g: "glob_xlsx sheet_world ''d'' = []"
    by (simp add: glob_xlsx_def listdir_def sheet_world_def endswith_def)
  have b: "\<not> fst (process_files (\<lambda>r. []) sheet_world ''d'' sample_info True)"
    using process_files_result [where w = sheet_world and directory = "''d''"
        and float_str = "\<lambda>r. []" and info = sample_info and parallel = True] g
    by simp
  show ?thesis using a b batch_listing batch_log by simp
qed

subsection \<open>C6: renaming twice\<close>

lemma free_name_free: "free_name names stem counter new_file_name \<notin> set names"
proof (induction names stem counter new_file_name rule: free_name.induct)
  case (1 names stem counter new_file_name)
  show ?case
  proof (cases "new_file_name \<in> set names")
    case True
    then show ?thesis using "1.IH" by (subst free_name.simps) simp
  next
    case False
    then show ?thesis by (subst free_name.simps) simp
  qed
qed

lemma rename_one_skips_suffixed:
  assumes "list_ex (endswith (rsplit_dot_head file_name)) (map snd keywords_map)"
  shows "fst (rename_one w directory file_name renamed_files) = renamed_files
     \<and> dirs (snd (rename_one w directory file_name renamed_files)) = dirs w"
  using assms
  by (auto simp: rename_one_def Let_def logmsg_def split: option.splits file_data.splits)

lemma collide_first_run:
  "rename_pdf_files collide_world ''d''
     = ([(''a.pdf'', ''a_qt_1.pdf'')],
        \<lparr>dirs = (\<lambda>d. if d = ''d''
                then [(''a_qt.pdf'', PdfFile [batch_page]), (''a_qt_1.pdf'', PdfFile [batch_page])]
                else []),
         cwd = ''d'', log = [Log INFO ''renamed file'' [''a.pdf'', ''a_qt_1.pdf'']],
         unidata = sample_unicode, arial_registered = True\<rparr>)"
  by (simp add: rename_pdf_files_def collide_world_def listdir_def rename_one_def endswith_def
      read_file_def batch_page_def find_suffix_def keywords_map_def lower_def is_ascii_def sample_unicode_def lower_char_def
      kw_qua_trinh_def kw_giua_ky_def kw_cuoi_ky_def rsplit_dot_head_def free_name.simps
      str_nat.simps rename_file_def logmsg_def Let_def fun_eq_iff)

text \<open>
  Claim C6. A second run of \<open>rename_pdf_files\<close> should rename nothing, and a target name
  that exists gets a counter appended until the name is free (\<open>free_name_free\<close>). The
  counter is put after the category suffix, so the name it gives does not end with a
  suffix any more: in a directory holding \<^verbatim>\<open>a.pdf\<close> and \<^verbatim>\<open>a_qt.pdf\<close> the first run
  renames \<^verbatim>\<open>a.pdf\<close> to \<^verbatim>\<open>a_qt_1.pdf\<close>, and the second run renames that file again, to
  \<^verbatim>\<open>a_qt_1_qt.pdf\<close>. After the first run the category \<^verbatim>\<open>qt\<close> does not select
  \<^verbatim>\<open>a_qt_1.pdf\<close> either.
\<close>

theorem rename_pdf_files_second_run_renames:
  "fst (rename_pdf_files collide_world ''d'') = [(''a.pdf'', ''a_qt_1.pdf'')]
   \<and> listdir (snd (rename_pdf_files collide_world ''d'')) ''d'' = [''a_qt.pdf'', ''a_qt_1.pdf'']
   \<and> fst (rename_pdf_files (snd (rename_pdf_files collide_world ''d'')) ''d'')
       = [(''a_qt_1.pdf'', ''a_qt_1_qt.pdf'')]
   \<and> listdir (snd (rename_pdf_files (snd (rename_pdf_files collide_world ''d'')) ''d'')) ''d''
       = [''a_qt.pdf'', ''a_qt_1_qt.pdf'']
   \<and> pdf_files_of (snd (rename_pdf_files collide_world ''d'')) ''d'' ''qt'' = [''a_qt.pdf'']"
  unfolding collide_first_run
  by (simp add: rename_pdf_files_def listdir_def rename_one_def endswith_def
      read_file_def batch_page_def find_suffix_def keywords_map_def lower_def is_ascii_def sample_unicode_def lower_char_def
      kw_qua_trinh_def kw_giua_ky_def kw_cuoi_ky_def rsplit_dot_head_def free_name.simps
      str_nat.simps rename_file_def logmsg_def pdf_files_of_def Let_def)

end
